theory Spec2Isabelle
  imports Complex_Main "HOL-Library.List_Lexorder"
begin

section \<open>JavaScript strings\<close>

text \<open>
  A JavaScript string is a sequence of UTF-16 code units. A code unit is modelled as a
  natural number, so that characters outside Latin-1 (the ellipsis U+2026 of the
  debug route) are single elements, as they are for \<^verbatim>\<open>slice\<close> and \<^verbatim>\<open>length\<close>.
  \<open>lit\<close> turns an ASCII literal of the source into its code units.
\<close>

type_synonym jsstring = "nat list"

definition lit :: "string \<Rightarrow> jsstring" where
  "lit s = map of_char s"

section \<open>components/DropZone.tsx: the brand-file list\<close>

text \<open>
  \<^verbatim>\<open>BrandFile\<close> of lib/types.ts. The browser's \<^verbatim>\<open>File\<close> object is an abstract
  value of type \<open>'f\<close>; its field \<^verbatim>\<open>file\<close> is named \<open>file_obj\<close> here.
\<close>

record 'f BrandFile =
  file_obj :: 'f
  preview :: jsstring
  isLogo :: bool

definition MAX_FILES :: int where
  "MAX_FILES = 5"

text \<open>
  \<^verbatim>\<open>Array.prototype.slice(0, end)\<close>: a negative \<open>end\<close> counts from the end of the
  array, and both cases are clamped to the array.
\<close>

definition slice0 :: "'a list \<Rightarrow> int \<Rightarrow> 'a list" where
  "slice0 xs e =
     (let len = int (length xs);
          fin = (if e < 0 then max (len + e) 0 else min e len)
      in take (nat fin) xs)"

text \<open>
  \<^verbatim>\<open>onDrop\<close> (lines 20-31). Each accepted file comes with the object URL that
  \<^verbatim>\<open>URL.createObjectURL\<close> hands out for it; the source calls it only for the files
  that survive the slice.
\<close>

definition onDrop :: "'f BrandFile list \<Rightarrow> ('f \<times> jsstring) list \<Rightarrow> 'f BrandFile list" where
  "onDrop files accepted =
     (let remaining = MAX_FILES - int (length files);
          toAdd = map (\<lambda>(i, f, u). \<lparr>file_obj = f, preview = u,
                                      isLogo = (length files = 0 \<and> i = 0)\<rparr>)
                    (enumerate 0 (slice0 accepted remaining))
      in files @ toAdd)"

text \<open>\<^verbatim>\<open>removeFile\<close> (lines 45-50): drop the index, then re-flag by position.\<close>

definition removeFile :: "'f BrandFile list \<Rightarrow> nat \<Rightarrow> 'f BrandFile list" where
  "removeFile files index =
     (let updated = map snd (filter (\<lambda>(i, bf). i \<noteq> index) (enumerate 0 files));
          remapped = map (\<lambda>(i, bf). bf\<lparr>isLogo := (i = 0)\<rparr>) (enumerate 0 updated)
      in remapped)"

datatype 'f dz_op = Drop "('f \<times> jsstring) list" | Remove nat

fun dz_step :: "'f BrandFile list \<Rightarrow> 'f dz_op \<Rightarrow> 'f BrandFile list" where
  "dz_step files (Drop accepted) = onDrop files accepted"
| "dz_step files (Remove index) = removeFile files index"

definition dz_run :: "'f dz_op list \<Rightarrow> 'f BrandFile list" where
  "dz_run ops = foldl dz_step [] ops"

text \<open>The two invariants of the list: at most five files, the logo flag exactly at index 0.\<close>

definition dz_inv :: "'f BrandFile list \<Rightarrow> bool" where
  "dz_inv files =
     (int (length files) \<le> MAX_FILES \<and>
      list_all (\<lambda>(i, bf). isLogo bf = (i = 0)) (enumerate 0 files))"

section \<open>The template page: the detected-field count\<close>

text \<open>
  A JavaScript number, as far as the page can meet one: \<^verbatim>\<open>NaN\<close>, a finite double
  that is an integer, or an infinity. The two zeros are one value here, \<open>Num 0\<close>: both
  are falsy and neither is greater than zero.
\<close>

datatype jsnum = NaN | Num int | PosInf | NegInf

definition is_ws :: "nat \<Rightarrow> bool" where
  "is_ws c = (c \<in> {9, 10, 11, 12, 13, 32, 160, 5760, 8232, 8233, 8239, 8287, 12288, 65279}
              \<or> (8192 \<le> c \<and> c \<le> 8202))"

definition is_digit :: "nat \<Rightarrow> bool" where
  "is_digit c = (48 \<le> c \<and> c \<le> 57)"

definition digits_value :: "jsstring \<Rightarrow> nat" where
  "digits_value z = foldl (\<lambda>a c. 10 * a + (c - 48)) 0 z"

text \<open>
  The conversion of a non-negative integer to a Number: the nearest double, ties to
  the even significand. \<open>excess_bits m\<close> is the number of low bits of \<open>m\<close> that a
  significand of 53 bits cannot hold; an integer that rounds to \<open>2^1024\<close> or more
  has no finite double and becomes an infinity (\<open>None\<close>).
\<close>

function excess_bits :: "nat \<Rightarrow> nat" where
  "excess_bits m = (if m < 2 ^ 53 then 0 else Suc (excess_bits (m div 2)))"
  by pat_completeness auto
termination
  by (relation "measure id") auto

declare excess_bits.simps [simp del]

definition to_double :: "nat \<Rightarrow> nat option" where
  "to_double m =
     (let s = excess_bits m;
          q = m div 2 ^ s;
          r = m mod 2 ^ s;
          q' = (if 2 ^ s < 2 * r \<or> (2 * r = 2 ^ s \<and> odd q) then q + 1 else q);
          v = q' * 2 ^ s
      in if 2 ^ 1024 \<le> v then None else Some v)"

text \<open>
  \<^verbatim>\<open>parseInt(string, 10)\<close> of ECMAScript: leading white space is skipped, one sign is
  read, then the longest prefix of decimal digits; no digit gives \<^verbatim>\<open>NaN\<close>, and the
  integer read is returned as a Number, that is rounded to a double. (Beyond 20
  significant digits ECMAScript allows an implementation to read the further digits as
  zeros; the conversion here is the exact one.)
\<close>

definition parseInt10 :: "jsstring \<Rightarrow> jsnum" where
  "parseInt10 s =
     (let S = dropWhile is_ws s;
          sign = (if S \<noteq> [] \<and> hd S = 45 then - 1 else 1);
          S' = (if S \<noteq> [] \<and> (hd S = 43 \<or> hd S = 45) then tl S else S);
          Z = takeWhile is_digit S'
      in if Z = [] then NaN
         else case to_double (digits_value Z) of
                None \<Rightarrow> if sign < (0::int) then NegInf else PosInf
              | Some v \<Rightarrow> Num (sign * int v))"

text \<open>\<^verbatim>\<open>if (count)\<close>: a number is truthy unless it is \<^verbatim>\<open>NaN\<close> or zero.\<close>

definition truthy_num :: "jsnum \<Rightarrow> bool" where
  "truthy_num c = (c \<noteq> NaN \<and> c \<noteq> Num 0)"

text \<open>\<^verbatim>\<open>fieldCount > 0\<close> on a number.\<close>

definition js_pos :: "jsnum \<Rightarrow> bool" where
  "js_pos c = (case c of Num n \<Rightarrow> 0 < n | PosInf \<Rightarrow> True | _ \<Rightarrow> False)"

datatype ConvertStatus = C_idle | C_uploading | C_detecting | C_building | C_done | C_error

text \<open>The React state of \<^verbatim>\<open>TemplatePage\<close> that the handler writes; \<open>'b\<close> is a Blob.\<close>

record 'b tpl_state =
  status :: ConvertStatus
  pdfBlob :: "'b option"
  errorMessage :: "jsstring option"
  fieldCount :: "jsnum option"

text \<open>
  What the network answers during one run of \<^verbatim>\<open>handleGenerate\<close>. \<open>Inl m\<close> is a step
  that throws an error with message \<open>m\<close> (a rejected fetch, a response that is not ok);
  \<open>convert_res\<close> carries the value of the \<^verbatim>\<open>X-Field-Count\<close> header of an ok response,
  \<open>None\<close> when the header is absent.
\<close>

record 'b gen_io =
  cfg_res :: "jsstring + unit"
  upload_res :: "jsstring + unit"
  convert_res :: "jsstring + jsstring option"
  blob_res :: "jsstring + 'b"

definition fail_with :: "'b tpl_state \<Rightarrow> jsstring \<Rightarrow> 'b tpl_state" where
  "fail_with st m = st\<lparr>status := C_error, errorMessage := Some m\<rparr>"

text \<open>\<^verbatim>\<open>handleGenerate\<close> of the template page (lines 39-110), state by state.\<close>

definition handleGenerate :: "'b tpl_state \<Rightarrow> bool \<Rightarrow> 'b gen_io \<Rightarrow> 'b tpl_state" where
  "handleGenerate st has_file io =
     (if \<not> has_file then st
      else
        let s1 = st\<lparr>status := C_uploading\<rparr> in
        case cfg_res io of
          Inl m \<Rightarrow> fail_with s1 m
        | Inr _ \<Rightarrow>
            let s2 = s1\<lparr>pdfBlob := None, errorMessage := None, fieldCount := None\<rparr> in
            (case upload_res io of
               Inl m \<Rightarrow> fail_with s2 m
             | Inr _ \<Rightarrow>
                 let s3 = s2\<lparr>status := C_detecting\<rparr> in
                 (case convert_res io of
                    Inl m \<Rightarrow> fail_with s3 m
                  | Inr hdr \<Rightarrow>
                      let s4 = s3\<lparr>status := C_building\<rparr>;
                          count = parseInt10 (case hdr of None \<Rightarrow> lit ''0'' | Some h \<Rightarrow> h);
                          s5 = (if truthy_num count then s4\<lparr>fieldCount := Some count\<rparr> else s4)
                      in (case blob_res io of
                            Inl m \<Rightarrow> fail_with s5 m
                          | Inr b \<Rightarrow> s5\<lparr>pdfBlob := Some b, status := C_done\<rparr>))))"

text \<open>
  The success block of the page (lines 251-262): the number the page prints as the count,
  \<open>None\<close> when it prints no count line.
\<close>

definition shown_count :: "'b tpl_state \<Rightarrow> jsnum option" where
  "shown_count st =
     (if status st = C_done \<and> pdfBlob st \<noteq> None then
        (case fieldCount st of
           None \<Rightarrow> None
         | Some c \<Rightarrow> if js_pos c then Some c else None)
      else None)"

text \<open>
  The count that the claim on the field count has the page print: the integer \<open>n > 0\<close>
  that the header parses to, and none when the header is absent or parses to no such
  integer.
\<close>

definition count_as_claimed :: "jsstring option \<Rightarrow> int option" where
  "count_as_claimed hdr =
     (case hdr of
        None \<Rightarrow> None
      | Some h \<Rightarrow> (case parseInt10 h of Num n \<Rightarrow> if 0 < n then Some n else None | _ \<Rightarrow> None))"

section \<open>The scratch page and lib/types.ts: the page size\<close>

text \<open>The union type \<^verbatim>\<open>'a4' | 'letter'\<close> of \<^verbatim>\<open>GenerateRequest.page_size\<close>.\<close>

datatype PageSize = A4 | Letter

fun page_size_tag :: "PageSize \<Rightarrow> jsstring" where
  "page_size_tag A4 = lit ''a4''"
| "page_size_tag Letter = lit ''letter''"

definition as_page_size :: "jsstring \<Rightarrow> PageSize option" where
  "as_page_size v =
     (if v = lit ''a4'' then Some A4 else if v = lit ''letter'' then Some Letter else None)"

text \<open>
  The options of the page-size select of \<^verbatim>\<open>ScratchPage\<close> (lines 225-233), value and
  label; code unit 215 is the multiplication sign of the labels.
\<close>

definition page_size_options :: "(jsstring \<times> jsstring) list" where
  "page_size_options =
     [(lit ''a4'', lit ''A4 (210 '' @ [215] @ lit '' 297 mm)''),
      (lit ''letter'', lit ''US Letter (8.5 '' @ [215] @ lit '' 11 in)'')]"

text \<open>
  \<^verbatim>\<open>onChange={e => setPageSize(e.target.value as 'a4' | 'letter')}\<close>: the value of a
  select element is the value of the option picked, given here by its index.
\<close>

definition onChange_pageSize :: "jsstring \<Rightarrow> nat \<Rightarrow> jsstring" where
  "onChange_pageSize cur i =
     (if i < length page_size_options then fst (page_size_options ! i) else cur)"

text \<open>\<^verbatim>\<open>useState<'a4' | 'letter'>('letter')\<close>, then any sequence of picks.\<close>

definition pageSize_after :: "nat list \<Rightarrow> jsstring" where
  "pageSize_after picks = foldl onChange_pageSize (lit ''letter'') picks"

section \<open>The API routes: environment, JSON responses\<close>

text \<open>
  \<^verbatim>\<open>process.env\<close> is a list of name and value pairs with distinct names;
  \<^verbatim>\<open>Object.keys\<close> lists the names, \<^verbatim>\<open>process.env[k]\<close> looks one up.
\<close>

type_synonym env = "(jsstring \<times> jsstring) list"

datatype jv = JStr jsstring | JBool bool | JNull | JArr "jv list" | JObj "(jsstring \<times> jv) list"

text \<open>\<^verbatim>\<open>NextResponse.json(body, { status })\<close>.\<close>

record response =
  code :: nat
  body :: jv

text \<open>\<^verbatim>\<open>a || b\<close> on strings that may be null or undefined: the empty string is falsy too.\<close>

definition or_else :: "jsstring option \<Rightarrow> jsstring \<Rightarrow> jsstring" where
  "or_else a b = (case a of None \<Rightarrow> b | Some v \<Rightarrow> if v = [] then b else v)"

text \<open>\<^verbatim>\<open>a ?? b\<close>: only null and undefined give way.\<close>

definition nullish :: "jsstring option \<Rightarrow> jsstring option \<Rightarrow> jsstring option" where
  "nullish a b = (case a of None \<Rightarrow> b | Some v \<Rightarrow> Some v)"

text \<open>A non-negative integer in a template literal: its decimal digits.\<close>

function dec :: "nat \<Rightarrow> jsstring" where
  "dec n = (if n < 10 then [48 + n] else dec (n div 10) @ [48 + n mod 10])"
  by pat_completeness auto
termination
  by (relation "measure id") auto

declare dec.simps [simp del]

section \<open>app/api/get-upload-url/route.ts\<close>

text \<open>
  \<^verbatim>\<open>.replace(/[^a-z0-9]/gi, '')\<close>: every code unit is removed unless it is an ASCII
  digit or an ASCII letter of either case (without the \<^verbatim>\<open>u\<close> flag, case folding never
  maps a code unit above 127 to an ASCII one).
\<close>

definition is_alnum :: "nat \<Rightarrow> bool" where
  "is_alnum c = ((48 \<le> c \<and> c \<le> 57) \<or> (65 \<le> c \<and> c \<le> 90) \<or> (97 \<le> c \<and> c \<le> 122))"

definition strip_non_alnum :: "jsstring \<Rightarrow> jsstring" where
  "strip_non_alnum s = filter is_alnum s"

text \<open>
  Line 12 (and line 71 of the second copy of the route): \<open>p\<close> is
  \<^verbatim>\<open>searchParams.get('ext')\<close>, \<open>None\<close> when the query has no such parameter.
\<close>

definition ext_of :: "jsstring option \<Rightarrow> jsstring" where
  "ext_of p = strip_non_alnum (or_else p (lit ''bin''))"

text \<open>
  Line 13 (and line 72): \<open>now\<close> is \<^verbatim>\<open>Date.now()\<close> and \<open>r\<close> is the string
  \<^verbatim>\<open>Math.random().toString(36)\<close>, whose first two code units \<^verbatim>\<open>slice(2)\<close> drops.
\<close>

definition upload_path :: "nat \<Rightarrow> jsstring \<Rightarrow> jsstring option \<Rightarrow> jsstring" where
  "upload_path now r p = lit ''templates/'' @ dec now @ lit ''-'' @ drop 2 r @ lit ''.'' @ ext_of p"

text \<open>
  The answer of Supabase to the sign request. The fields of its JSON body that the route
  reads are strings or missing; \<open>res_json = None\<close> is a body that does not parse.
\<close>

record sign_json =
  token :: "jsstring option"
  signedToken :: "jsstring option"
  signed_url :: "jsstring option"

record sign_response =
  res_ok :: bool
  res_status :: nat
  res_text :: jsstring
  res_json :: "sign_json option"

datatype fetch_result = Rejected | Responded sign_response

text \<open>
  \<^verbatim>\<open>s.replace(pat, rep)\<close> with a string pattern: the first occurrence only
  (the replacement of the route has no \<^verbatim>\<open>$\<close> pattern).
\<close>

fun replace_first :: "jsstring \<Rightarrow> jsstring \<Rightarrow> jsstring \<Rightarrow> jsstring" where
  "replace_first pat rep [] = (if pat = [] then rep else [])"
| "replace_first pat rep (c # cs) =
     (if take (length pat) (c # cs) = pat then rep @ drop (length pat) (c # cs)
      else c # replace_first pat rep cs)"

definition opt_jv :: "jsstring option \<Rightarrow> jv" where
  "opt_jv a = (case a of None \<Rightarrow> JNull | Some v \<Rightarrow> JStr v)"

definition sign_json_jv :: "sign_json \<Rightarrow> jv" where
  "sign_json_jv j =
     JObj [(lit ''token'', opt_jv (token j)), (lit ''signedToken'', opt_jv (signedToken j)),
           (lit ''signed_url'', opt_jv (signed_url j))]"

text \<open>
  The outcome of a request: the URL the route posts to Supabase, if it gets that far, and
  the response, \<open>None\<close> when the handler throws (a rejected fetch, a body that is no JSON).
\<close>

record get_outcome =
  sign_request :: "jsstring option"
  reply :: "response option"

definition supabase_url_of :: "env \<Rightarrow> jsstring" where
  "supabase_url_of e =
     or_else (map_of e (lit ''SUPABASE_URL''))
       (or_else (map_of e (lit ''NEXT_PUBLIC_SUPABASE_URL'')) [])"

definition service_role_key_of :: "env \<Rightarrow> jsstring" where
  "service_role_key_of e = or_else (map_of e (lit ''SUPABASE_SERVICE_ROLE_KEY'')) []"

definition sign_endpoint :: "jsstring \<Rightarrow> jsstring \<Rightarrow> jsstring" where
  "sign_endpoint supabaseUrl path =
     supabaseUrl @ lit ''/storage/v1/object/sign/upload/pdf-creator/'' @ path"

definition upload_url :: "jsstring \<Rightarrow> jsstring \<Rightarrow> jsstring \<Rightarrow> jsstring" where
  "upload_url supabaseUrl path tok =
     supabaseUrl @ lit ''/storage/v1/object/upload/sign/pdf-creator/'' @ path @ lit ''?token='' @ tok"

definition public_url :: "jsstring \<Rightarrow> jsstring \<Rightarrow> jsstring" where
  "public_url supabaseUrl path = supabaseUrl @ lit ''/storage/v1/object/public/pdf-creator/'' @ path"

definition ok_body :: "jsstring \<Rightarrow> jsstring \<Rightarrow> jsstring \<Rightarrow> jv" where
  "ok_body supabaseUrl path tok =
     JObj [(lit ''uploadUrl'', JStr (upload_url supabaseUrl path tok)),
           (lit ''publicUrl'', JStr (public_url supabaseUrl path)),
           (lit ''deletePath'', JStr path)]"

text \<open>\<^verbatim>\<open>GET\<close> of the route (lines 10-59).\<close>

definition upload_GET ::
  "env \<Rightarrow> jsstring option \<Rightarrow> nat \<Rightarrow> jsstring \<Rightarrow> (jsstring \<Rightarrow> fetch_result) \<Rightarrow> get_outcome" where
  "upload_GET e p now r fetch =
     (let path = upload_path now r p;
          supabaseUrl = supabase_url_of e;
          serviceRoleKey = service_role_key_of e
      in if supabaseUrl = [] \<or> serviceRoleKey = [] then
           \<lparr>sign_request = None,
            reply = Some \<lparr>code = 500,
              body = JObj [(lit ''error'', JStr (lit ''Storage not configured'')),
                           (lit ''hasUrl'', JBool (supabaseUrl \<noteq> [])),
                           (lit ''hasSrk'', JBool (serviceRoleKey \<noteq> []))]\<rparr>\<rparr>
         else
           let signEndpoint = sign_endpoint supabaseUrl path in
           case fetch signEndpoint of
             Rejected \<Rightarrow> \<lparr>sign_request = Some signEndpoint, reply = None\<rparr>
           | Responded res \<Rightarrow>
               if \<not> res_ok res then
                 \<lparr>sign_request = Some signEndpoint,
                  reply = Some \<lparr>code = 502,
                    body = JObj [(lit ''error'',
                                    JStr (lit ''Supabase error ('' @ dec (res_status res) @ lit '')'')),
                                 (lit ''detail'', JStr (res_text res)),
                                 (lit ''endpoint'',
                                    JStr (replace_first supabaseUrl (lit ''[url]'') signEndpoint))]\<rparr>\<rparr>
               else
                 (case res_json res of
                    None \<Rightarrow> \<lparr>sign_request = Some signEndpoint, reply = None\<rparr>
                  | Some json \<Rightarrow>
                      (case nullish (nullish (token json) (signedToken json)) (signed_url json) of
                         None \<Rightarrow>
                           \<lparr>sign_request = Some signEndpoint,
                            reply = Some \<lparr>code = 502,
                              body = JObj [(lit ''error'', JStr (lit ''No token in Supabase response'')),
                                           (lit ''raw'', sign_json_jv json)]\<rparr>\<rparr>
                       | Some tok \<Rightarrow>
                           if tok = [] then
                             \<lparr>sign_request = Some signEndpoint,
                              reply = Some \<lparr>code = 502,
                                body = JObj [(lit ''error'', JStr (lit ''No token in Supabase response'')),
                                             (lit ''raw'', sign_json_jv json)]\<rparr>\<rparr>
                           else
                             \<lparr>sign_request = Some signEndpoint,
                              reply = Some \<lparr>code = 200, body = ok_body supabaseUrl path tok\<rparr>\<rparr>)))"

text \<open>
  \<^verbatim>\<open>GET\<close> of the second copy of the route (lines 69-108): no flags in the first
  error, the body text in the second, and the token read by destructuring with no check,
  so that a missing token is printed as \<^verbatim>\<open>undefined\<close>.
\<close>

definition upload_GET2 ::
  "env \<Rightarrow> jsstring option \<Rightarrow> nat \<Rightarrow> jsstring \<Rightarrow> (jsstring \<Rightarrow> fetch_result) \<Rightarrow> get_outcome" where
  "upload_GET2 e p now r fetch =
     (let path = upload_path now r p;
          supabaseUrl = supabase_url_of e;
          serviceRoleKey = service_role_key_of e
      in if supabaseUrl = [] \<or> serviceRoleKey = [] then
           \<lparr>sign_request = None,
            reply = Some \<lparr>code = 500,
              body = JObj [(lit ''error'', JStr (lit ''Storage not configured''))]\<rparr>\<rparr>
         else
           let signEndpoint = sign_endpoint supabaseUrl path in
           case fetch signEndpoint of
             Rejected \<Rightarrow> \<lparr>sign_request = Some signEndpoint, reply = None\<rparr>
           | Responded res \<Rightarrow>
               if \<not> res_ok res then
                 \<lparr>sign_request = Some signEndpoint,
                  reply = Some \<lparr>code = 502,
                    body = JObj [(lit ''error'',
                                    JStr (lit ''Supabase error: '' @ res_text res))]\<rparr>\<rparr>
               else
                 (case res_json res of
                    None \<Rightarrow> \<lparr>sign_request = Some signEndpoint, reply = None\<rparr>
                  | Some json \<Rightarrow>
                      \<lparr>sign_request = Some signEndpoint,
                       reply = Some \<lparr>code = 200,
                         body = ok_body supabaseUrl path
                                  (case token json of None \<Rightarrow> lit ''undefined'' | Some t \<Rightarrow> t)\<rparr>\<rparr>))"

text \<open>
  What the claim about the path says of the extension: the parameter with every
  character other than ASCII letters and digits removed, \<^verbatim>\<open>bin\<close> when it is absent.
\<close>

definition ext_as_claimed :: "jsstring option \<Rightarrow> jsstring" where
  "ext_as_claimed p = filter is_alnum (case p of None \<Rightarrow> lit ''bin'' | Some v \<Rightarrow> v)"

section \<open>app/api/debug-env/route.ts\<close>

text \<open>
  \<^verbatim>\<open>toLowerCase\<close> on the ASCII letters. Code units outside \<^verbatim>\<open>A-Z\<close> are left as
  they are: no other character lowercases to a letter of \<^verbatim>\<open>supabase\<close>, so the test
  \<^verbatim>\<open>k.toLowerCase().includes('supabase')\<close>, the only use of the result, is decided
  the same way.
\<close>

definition toLowerCase :: "jsstring \<Rightarrow> jsstring" where
  "toLowerCase s = map (\<lambda>c. if 65 \<le> c \<and> c \<le> 90 then c + 32 else c) s"

fun js_includes :: "jsstring \<Rightarrow> jsstring \<Rightarrow> bool" where
  "js_includes [] t = (t = [])"
| "js_includes (c # cs) t = (take (length t) (c # cs) = t \<or> js_includes cs t)"

definition has_supabase :: "jsstring \<Rightarrow> bool" where
  "has_supabase k = js_includes (toLowerCase k) (lit ''supabase'')"

text \<open>Line 17: \<^verbatim>\<open>v.slice(0, 12) + (v.length > 12 ? '...' : '')\<close>, the ellipsis being U+2026.\<close>

definition preview_of :: "jsstring \<Rightarrow> jsstring" where
  "preview_of v = take 12 v @ (if 12 < length v then [8230] else [])"

text \<open>Lines 9-11; the default \<^verbatim>\<open>sort\<close> orders strings by their code units.\<close>

definition debug_keys :: "env \<Rightarrow> jsstring list" where
  "debug_keys e = sort (filter has_supabase (map fst e))"

text \<open>Lines 13-18, the record filled in the order of the keys.\<close>

definition debug_preview :: "env \<Rightarrow> (jsstring \<times> jsstring) list" where
  "debug_preview e =
     map (\<lambda>k. (k, preview_of (case map_of e k of None \<Rightarrow> [] | Some v \<Rightarrow> v))) (debug_keys e)"

definition debug_GET :: "env \<Rightarrow> response" where
  "debug_GET e =
     \<lparr>code = 200,
      body = JObj [(lit ''keys'', JArr (map JStr (debug_keys e))),
                   (lit ''preview'', JObj (map (\<lambda>(k, v). (k, JStr v)) (debug_preview e)))]\<rparr>"

text \<open>
  What two environments are compared on. \<open>names_prefixes\<close> is the comparison of the
  claim: the names containing \<^verbatim>\<open>supabase\<close>, each with the first 12 characters of its
  value. \<open>names_previews\<close> adds whether the value is longer than 12 characters.
\<close>

definition names_prefixes :: "env \<Rightarrow> (jsstring \<times> jsstring) list" where
  "names_prefixes e = map (\<lambda>(k, v). (k, take 12 v)) (filter (\<lambda>(k, v). has_supabase k) e)"

definition names_previews :: "env \<Rightarrow> (jsstring \<times> jsstring \<times> bool) list" where
  "names_previews e =
     map (\<lambda>(k, v). (k, take 12 v, 12 < length v)) (filter (\<lambda>(k, v). has_supabase k) e)"

section \<open>The form engine: data model\<close>

text \<open>
  Modelled from the spec: the engine itself (validation, layout, widget mapping and
  document writing; the Python modules that the
  README lists under \<^verbatim>\<open>src/\<close> and \<^verbatim>\<open>api/\<close>) is not among the source files. Every
  definition of the engine, from here to the generation run, follows sections 3, 4 and 7
  of the specification. Lengths are exact rationals, in points.
\<close>

type_synonym rgb = "int \<times> int \<times> int"

text \<open>Modelled from the spec: the BrandTheme of section 3, six colours.\<close>

record BrandTheme =
  primary :: rgb
  secondary :: rgb
  accent :: rgb
  text_on_primary :: rgb
  light_tint :: rgb
  dark_shade :: rgb

text \<open>Modelled from the spec: the closed set of field types of section 3.\<close>

datatype field_type =
  TText | TEmail | TPhone | TNumber | TDate | TMultiline | TCheckbox | TChoice | TSignature

text \<open>
  Modelled from the spec: a Field of section 3. The type parameter is the type of the
  \<^verbatim>\<open>type\<close> attribute: a string before validation, a \<open>field_type\<close> after it.
\<close>

record 't Field =
  name :: string
  label :: string
  required :: bool
  default_value :: "string option"
  tooltip :: string
  full_width :: bool
  ftype :: 't
  options :: "string list"
  height :: "rat option"
  placeholder :: "string option"

text \<open>Modelled from the spec: a Section of section 3.\<close>

record 't Section =
  title :: string
  columns :: nat
  intro_text :: "string option"
  field_list :: "'t Field list"

text \<open>Modelled from the spec: the FormSpec of section 3.\<close>

record 't FormSpec =
  company_name :: string
  document_title :: string
  document_subtitle :: string
  footer_text :: string
  page_size :: PageSize
  sections :: "'t Section list"

text \<open>Modelled from the spec: the fields of the whole document, section by section.\<close>

definition all_fields :: "'t FormSpec \<Rightarrow> 't Field list" where
  "all_fields fs = concat (map field_list (sections fs))"

section \<open>The form engine: validation\<close>

text \<open>
  Modelled from the spec: the fixed set of field types of sections 3 and 4.4. (The
  configuration reference of the README writes three of them otherwise: \<^verbatim>\<open>textarea\<close>,
  \<^verbatim>\<open>dropdown\<close>, \<^verbatim>\<open>select\<close>; the names here are the specification's.)
\<close>

definition parse_field_type :: "string \<Rightarrow> field_type option" where
  "parse_field_type s =
     (if s = ''text'' then Some TText
      else if s = ''email'' then Some TEmail
      else if s = ''phone'' then Some TPhone
      else if s = ''number'' then Some TNumber
      else if s = ''date'' then Some TDate
      else if s = ''multiline'' then Some TMultiline
      else if s = ''checkbox'' then Some TCheckbox
      else if s = ''choice'' then Some TChoice
      else if s = ''signature'' then Some TSignature
      else None)"

text \<open>
  Modelled from the spec: \<^verbatim>\<open>ValidationError\<close> of section 7, with the further
  invariants of section 3 (a section, one or two columns, positive heights).
\<close>

datatype ValidationError =
    UnknownFieldType string string
  | DuplicateFieldName string
  | EmptyChoiceOptions string
  | NonPositiveHeight string
  | BadColumnCount string
  | NoSections

text \<open>Modelled from the spec: validation of one field: its type, then the invariants of section 3.\<close>

definition validate_field :: "string Field \<Rightarrow> ValidationError + field_type Field" where
  "validate_field f =
     (case parse_field_type (ftype f) of
        None \<Rightarrow> Inl (UnknownFieldType (name f) (ftype f))
      | Some t \<Rightarrow>
          if t = TChoice \<and> options f = [] then Inl (EmptyChoiceOptions (name f))
          else if (case height f of None \<Rightarrow> False | Some h \<Rightarrow> h \<le> 0)
            then Inl (NonPositiveHeight (name f))
          else Inr \<lparr>name = name f, label = label f, required = required f,
                    default_value = default_value f, tooltip = tooltip f,
                    full_width = full_width f, ftype = t, options = options f,
                    height = height f, placeholder = placeholder f\<rparr>)"

text \<open>Modelled from the spec: validation of a list of fields, stopping at the first error.\<close>

fun validate_fields :: "string Field list \<Rightarrow> ValidationError + field_type Field list" where
  "validate_fields [] = Inr []"
| "validate_fields (f # fs) =
     (case validate_field f of
        Inl e \<Rightarrow> Inl e
      | Inr g \<Rightarrow> (case validate_fields fs of Inl e \<Rightarrow> Inl e | Inr gs \<Rightarrow> Inr (g # gs)))"

text \<open>Modelled from the spec: validation of a section: its column count, then its fields.\<close>

definition validate_section :: "string Section \<Rightarrow> ValidationError + field_type Section" where
  "validate_section s =
     (if columns s \<noteq> 1 \<and> columns s \<noteq> 2 then Inl (BadColumnCount (title s))
      else case validate_fields (field_list s) of
             Inl e \<Rightarrow> Inl e
           | Inr gs \<Rightarrow> Inr \<lparr>title = title s, columns = columns s,
                             intro_text = intro_text s, field_list = gs\<rparr>)"

text \<open>Modelled from the spec: validation of the sections in order, stopping at the first error.\<close>

fun validate_sections :: "string Section list \<Rightarrow> ValidationError + field_type Section list" where
  "validate_sections [] = Inr []"
| "validate_sections (s # ss) =
     (case validate_section s of
        Inl e \<Rightarrow> Inl e
      | Inr t \<Rightarrow> (case validate_sections ss of Inl e \<Rightarrow> Inl e | Inr ts \<Rightarrow> Inr (t # ts)))"

text \<open>Modelled from the spec: the first field name that occurs again later in the document.\<close>

fun first_duplicate :: "string list \<Rightarrow> string option" where
  "first_duplicate [] = None"
| "first_duplicate (x # xs) = (if x \<in> set xs then Some x else first_duplicate xs)"

text \<open>Modelled from the spec: FormSpec validation, which runs before anything else (sections 4.4 and 7).\<close>

definition validate :: "string FormSpec \<Rightarrow> ValidationError + field_type FormSpec" where
  "validate raw =
     (if sections raw = [] then Inl NoSections
      else case validate_sections (sections raw) of
             Inl e \<Rightarrow> Inl e
           | Inr ss \<Rightarrow>
               (case first_duplicate (map name (concat (map field_list ss))) of
                  Some n \<Rightarrow> Inl (DuplicateFieldName n)
                | None \<Rightarrow> Inr \<lparr>company_name = company_name raw,
                                 document_title = document_title raw,
                                 document_subtitle = document_subtitle raw,
                                 footer_text = footer_text raw,
                                 page_size = page_size raw, sections = ss\<rparr>))"

text \<open>
  The malformed specifications that the claim on validation names: an unknown field
  type, a duplicate field name, a choice field with no options. This follows the claim,
  not \<open>validate\<close>.
\<close>

definition malformed :: "string FormSpec \<Rightarrow> bool" where
  "malformed raw =
     (list_ex (\<lambda>f. parse_field_type (ftype f) = None) (all_fields raw) \<or>
      \<not> distinct (map name (all_fields raw)) \<or>
      list_ex (\<lambda>f. ftype f = ''choice'' \<and> options f = []) (all_fields raw))"

text \<open>Modelled from the spec: the invariants of a validated Field (section 3).\<close>

definition valid_field :: "field_type Field \<Rightarrow> bool" where
  "valid_field f =
     ((ftype f = TChoice \<longrightarrow> options f \<noteq> []) \<and>
      (case height f of None \<Rightarrow> True | Some h \<Rightarrow> 0 < h))"

text \<open>Modelled from the spec: the invariants of a validated FormSpec (section 3).\<close>

definition valid_spec :: "field_type FormSpec \<Rightarrow> bool" where
  "valid_spec fs =
     (sections fs \<noteq> [] \<and>
      list_all (\<lambda>s. columns s = 1 \<or> columns s = 2) (sections fs) \<and>
      list_all valid_field (all_fields fs) \<and>
      distinct (map name (all_fields fs)))"

section \<open>The form engine: widgets (FieldWidgetMapper)\<close>

text \<open>Modelled from the spec: the widget kinds of table 4.4.\<close>

datatype widget_kind = SingleLineEntry | MultiLineEntry | BooleanToggle | SingleSelectionList

text \<open>
  Modelled from the spec: the widget-specific parameters of table 4.4 (the greyed hint of
  a date, the numeric keypad hint, the options of a choice and the one selected, the
  baseline rule of a signature).
\<close>

record Widget =
  kind :: widget_kind
  hint_text :: "string option"
  numeric_hint :: bool
  choices :: "string list"
  selected :: "string option"
  baseline_rule :: bool

text \<open>Modelled from the spec: the mapping table of section 4.4, first column to second.\<close>

fun widget_kind_of :: "field_type \<Rightarrow> widget_kind" where
  "widget_kind_of TText = SingleLineEntry"
| "widget_kind_of TEmail = SingleLineEntry"
| "widget_kind_of TPhone = SingleLineEntry"
| "widget_kind_of TNumber = SingleLineEntry"
| "widget_kind_of TDate = SingleLineEntry"
| "widget_kind_of TMultiline = MultiLineEntry"
| "widget_kind_of TCheckbox = BooleanToggle"
| "widget_kind_of TChoice = SingleSelectionList"
| "widget_kind_of TSignature = MultiLineEntry"

text \<open>Modelled from the spec: \<^verbatim>\<open>FieldWidgetMapper.map\<close>, total on the closed set of types.\<close>

definition map_widget :: "field_type Field \<Rightarrow> Widget" where
  "map_widget f =
     \<lparr>kind = widget_kind_of (ftype f),
      hint_text = (if ftype f = TDate
                   then Some (case placeholder f of None \<Rightarrow> ''DD / MM / YYYY'' | Some p \<Rightarrow> p)
                   else None),
      numeric_hint = (ftype f = TNumber),
      choices = (if ftype f = TChoice then options f else []),
      selected = (if ftype f = TChoice
                  then (case default_value f of
                          None \<Rightarrow> None
                        | Some d \<Rightarrow> if d \<in> set (options f) then Some d else None)
                  else None),
      baseline_rule = (ftype f = TSignature)\<rparr>"

section \<open>The form engine: layout (LayoutEngine)\<close>

text \<open>
  Modelled from the spec: the fixed measures of the engine, which the specification
  names without giving their values: the page margin, the heights of the header band,
  the footer band, a section bar and a field line, the gutter between two columns, and
  the number of lines an intro paragraph wraps to on a given width.
\<close>

record Metrics =
  margin :: rat
  header_h :: rat
  footer_h :: rat
  bar_h :: rat
  line_h :: rat
  gutter :: rat
  wrap_lines :: "rat \<Rightarrow> string \<Rightarrow> nat"

text \<open>Modelled from the spec: the two presets of section 6, width and height in points.\<close>

fun page_dims :: "PageSize \<Rightarrow> rat \<times> rat" where
  "page_dims A4 = (210 * 360 / 127, 297 * 360 / 127)"
| "page_dims Letter = (612, 792)"

text \<open>Modelled from the spec: centimetres to points, once, at the boundary of the engine.\<close>

definition cm :: "rat \<Rightarrow> rat" where
  "cm x = x * 3600 / 127"

text \<open>Modelled from the spec: the top of the body area, under the margin and the header band.\<close>

definition body_top :: "Metrics \<Rightarrow> rat" where
  "body_top m = margin m + header_h m"

text \<open>Modelled from the spec: the height of the body area, between header and footer.\<close>

definition body_h :: "Metrics \<Rightarrow> PageSize \<Rightarrow> rat" where
  "body_h m ps = snd (page_dims ps) - 2 * margin m - header_h m - footer_h m"

text \<open>Modelled from the spec: the width of the body area, between the margins.\<close>

definition body_w :: "Metrics \<Rightarrow> PageSize \<Rightarrow> rat" where
  "body_w m ps = fst (page_dims ps) - 2 * margin m"

text \<open>Modelled from the spec: the width of one of two columns.\<close>

definition col_w :: "Metrics \<Rightarrow> PageSize \<Rightarrow> rat" where
  "col_w m ps = (body_w m ps - gutter m) / 2"


text \<open>Modelled from the spec: a bounding box on a page: its left edge, its top edge measured down from the top of the page,
  its width and its height.\<close>

record Box =
  box_x :: rat
  box_y :: rat
  box_w :: rat
  box_h :: rat

text \<open>Modelled from the spec: the drawing primitives of section 3: rectangle, line, text run.\<close>

datatype DrawPrimitive = Rect Box rgb | Line Box rgb | TextRun Box string rgb

text \<open>Modelled from the spec: a FieldPlacement of section 3.\<close>

record FieldPlacement =
  field_id :: string
  bbox :: Box
  widget :: Widget

text \<open>Modelled from the spec: a Page of section 3, numbered from 1.\<close>

record Page =
  page_no :: nat
  primitives :: "DrawPrimitive list"
  placements :: "FieldPlacement list"

text \<open>Modelled from the spec: the recorded warning of section 7, with the name of the field.\<close>

datatype LayoutWarning = LayoutOverflowWarning string

text \<open>Modelled from the spec: the LayoutResult of section 3, with the warnings of the run.\<close>

record LayoutResult =
  pages :: "Page list"
  warnings :: "LayoutWarning list"

text \<open>
  Modelled from the spec: the state of the page state machine of section 4.3. The pages
  in \<open>sealed\<close> have their footer; the current page is in its body, with its header
  drawn, and \<open>y_cursor\<close> is the distance from the top of the body.
\<close>

record LState =
  sealed :: "Page list"
  cur_prims :: "DrawPrimitive list"
  cur_places :: "FieldPlacement list"
  y_cursor :: rat
  warns :: "LayoutWarning list"

text \<open>Modelled from the spec: the inputs of one run of the layout.\<close>

record Job =
  metrics :: Metrics
  theme :: BrandTheme
  form :: "field_type FormSpec"
  psize :: PageSize

text \<open>Modelled from the spec: the page number as the footer prints it.\<close>

definition page_text :: "nat \<Rightarrow> string" where
  "page_text n = map char_of (dec n)"

text \<open>
  Modelled from the spec: the header band, in the primary colour; page 1 has the logo
  slot and the subtitle, a continuation page has neither.
\<close>

definition header_prims :: "Job \<Rightarrow> nat \<Rightarrow> DrawPrimitive list" where
  "header_prims j n =
     (let m = metrics j; th = theme j; fs = form j;
          band = \<lparr>box_x = margin m, box_y = margin m, box_w = body_w m (psize j),
                  box_h = header_h m\<rparr>
      in [Rect band (primary th)] @
         (if n = 1 then [Rect (band\<lparr>box_w := header_h m\<rparr>) (light_tint th)] else []) @
         [TextRun band (company_name fs) (text_on_primary th),
          TextRun band (document_title fs) (text_on_primary th)] @
         (if n = 1 then [TextRun band (document_subtitle fs) (text_on_primary th)] else []))"

text \<open>Modelled from the spec: the footer band, the footer text and the page number.\<close>

definition footer_prims :: "Job \<Rightarrow> nat \<Rightarrow> DrawPrimitive list" where
  "footer_prims j n =
     (let m = metrics j; th = theme j;
          band = \<lparr>box_x = margin m, box_y = body_top m + body_h m (psize j),
                  box_w = body_w m (psize j), box_h = footer_h m\<rparr>
      in [Line band (secondary th),
          TextRun band (footer_text (form j)) (dark_shade th),
          TextRun band (page_text n) (dark_shade th)])"

text \<open>Modelled from the spec: page 1 in its body, the full header drawn, the cursor at the top.\<close>

definition start_state :: "Job \<Rightarrow> LState" where
  "start_state j =
     \<lparr>sealed = [], cur_prims = header_prims j 1, cur_places = [], y_cursor = 0, warns = []\<rparr>"

text \<open>Modelled from the spec: FOOTER and SEALED: the current page gets its footer and joins the sealed pages.\<close>

definition seal :: "Job \<Rightarrow> LState \<Rightarrow> Page list" where
  "seal j st =
     sealed st @
     [\<lparr>page_no = length (sealed st) + 1,
       primitives = cur_prims st @ footer_prims j (length (sealed st) + 1),
       placements = cur_places st\<rparr>]"

text \<open>Modelled from the spec: flushing the page: seal it, then open the next one with its abbreviated header.\<close>

definition flush :: "Job \<Rightarrow> LState \<Rightarrow> LState" where
  "flush j st =
     st\<lparr>sealed := seal j st,
        cur_prims := header_prims j (length (sealed st) + 2),
        cur_places := [],
        y_cursor := 0\<rparr>"

text \<open>Modelled from the spec: the body height that is left under the cursor.\<close>

definition remaining :: "Job \<Rightarrow> LState \<Rightarrow> rat" where
  "remaining j st = body_h (metrics j) (psize j) - y_cursor st"

text \<open>
  Modelled from the spec: the height of a field. Multiline and signature fields have
  their configured height, 2.2 cm and 2.0 cm when none is given; every other field has
  the fixed line height.
\<close>

definition field_h :: "Metrics \<Rightarrow> field_type Field \<Rightarrow> rat" where
  "field_h m f =
     (if ftype f = TMultiline then cm (case height f of None \<Rightarrow> 22 / 10 | Some h \<Rightarrow> h)
      else if ftype f = TSignature then cm (case height f of None \<Rightarrow> 2 | Some h \<Rightarrow> h)
      else line_h m)"

text \<open>Modelled from the spec: the height of a row, the largest height of its fields.\<close>

definition row_h :: "Metrics \<Rightarrow> field_type Field list \<Rightarrow> rat" where
  "row_h m row = foldr (\<lambda>f a. max (field_h m f) a) row 0"

text \<open>
  Modelled from the spec: the greedy fill of the rows. In two columns a field takes the
  next slot, left to right; a full-width field breaks the row before and after itself.
\<close>

fun rows2 :: "'t Field list \<Rightarrow> 't Field list list" where
  "rows2 [] = []"
| "rows2 [f] = [[f]]"
| "rows2 (f # g # fs) =
     (if full_width f then [f] # rows2 (g # fs)
      else if full_width g then [f] # [g] # rows2 fs
      else [f, g] # rows2 fs)"

text \<open>Modelled from the spec: the rows of a section: one field a row in one column, the greedy fill in two.\<close>

definition rows_of :: "nat \<Rightarrow> 't Field list \<Rightarrow> 't Field list list" where
  "rows_of cols fs = (if cols = 2 then rows2 fs else map (\<lambda>f. [f]) fs)"

text \<open>
  Modelled from the spec: the fields of a row with their slots: a field alone in a one-column section, or a
  full-width field, spans the body; otherwise the field at position \<open>i\<close> of the row is
  in column \<open>i\<close>.
\<close>

definition slot :: "Job \<Rightarrow> nat \<Rightarrow> nat \<Rightarrow> field_type Field \<Rightarrow> rat \<times> rat" where
  "slot j cols i f =
     (let m = metrics j in
      if cols \<noteq> 2 \<or> full_width f then (margin m, body_w m (psize j))
      else (margin m + rat_of_nat i * (col_w m (psize j) + gutter m), col_w m (psize j)))"

text \<open>Modelled from the spec: the placement of one field of a row, clipped to the height available.\<close>

definition place_field :: "Job \<Rightarrow> nat \<Rightarrow> rat \<Rightarrow> rat \<Rightarrow> nat \<times> field_type Field \<Rightarrow> FieldPlacement" where
  "place_field j cols y avail p =
     (case p of (i, f) \<Rightarrow>
        \<lparr>field_id = name f,
         bbox = \<lparr>box_x = fst (slot j cols i f), box_y = body_top (metrics j) + y,
                 box_w = snd (slot j cols i f), box_h = min (field_h (metrics j) f) avail\<rparr>,
         widget = map_widget f\<rparr>)"

text \<open>
  Modelled from the spec: placing a row. A row taller than the space left flushes the
  page and starts at the top of the next body; a row taller than a whole body is clipped
  to it, with a warning for each field that is cut.
\<close>

definition place_row :: "Job \<Rightarrow> nat \<Rightarrow> LState \<Rightarrow> field_type Field list \<Rightarrow> LState" where
  "place_row j cols st row =
     (let m = metrics j;
          h = row_h m row;
          st1 = (if remaining j st < h then flush j st else st);
          avail = remaining j st1;
          y = y_cursor st1
      in st1\<lparr>cur_places := cur_places st1 @ map (place_field j cols y avail) (enumerate 0 row),
             y_cursor := y + min h avail,
             warns := warns st1 @
               map (\<lambda>f. LayoutOverflowWarning (name f))
                 (filter (\<lambda>f. avail < field_h m f) row)\<rparr>)"

text \<open>
  Modelled from the spec: the section bar, which is never left alone at the foot of a
  page, and the intro paragraph under it, with the overflow rule of a row.
\<close>

definition draw_bar :: "Job \<Rightarrow> LState \<Rightarrow> string \<Rightarrow> LState" where
  "draw_bar j st t =
     (let m = metrics j;
          st1 = (if remaining j st < bar_h m + line_h m then flush j st else st);
          b = \<lparr>box_x = margin m, box_y = body_top m + y_cursor st1,
               box_w = body_w m (psize j), box_h = bar_h m\<rparr>
      in st1\<lparr>cur_prims := cur_prims st1 @ [Rect b (primary (theme j)),
                                            TextRun b t (text_on_primary (theme j))],
             y_cursor := y_cursor st1 + bar_h m\<rparr>)"

text \<open>Modelled from the spec: the intro paragraph of a section, full width, with the overflow rule of a row.\<close>

definition draw_intro :: "Job \<Rightarrow> LState \<Rightarrow> string \<Rightarrow> LState" where
  "draw_intro j st t =
     (let m = metrics j;
          h = rat_of_nat (wrap_lines m (body_w m (psize j)) t) * line_h m;
          st1 = (if remaining j st < h then flush j st else st);
          avail = remaining j st1;
          b = \<lparr>box_x = margin m, box_y = body_top m + y_cursor st1,
               box_w = body_w m (psize j), box_h = min h avail\<rparr>
      in st1\<lparr>cur_prims := cur_prims st1 @ [TextRun b t (dark_shade (theme j))],
             y_cursor := y_cursor st1 + min h avail\<rparr>)"

text \<open>Modelled from the spec: a section: its bar, its intro text if any, then its rows.\<close>

definition layout_section :: "Job \<Rightarrow> LState \<Rightarrow> field_type Section \<Rightarrow> LState" where
  "layout_section j st s =
     (let st1 = draw_bar j st (title s);
          st2 = (case intro_text s of None \<Rightarrow> st1 | Some t \<Rightarrow> draw_intro j st1 t)
      in foldl (place_row j (columns s)) st2 (rows_of (columns s) (field_list s)))"

text \<open>Modelled from the spec: \<^verbatim>\<open>LayoutEngine.layout(form_spec, theme, page_size)\<close>.\<close>

definition layout :: "Metrics \<Rightarrow> field_type FormSpec \<Rightarrow> BrandTheme \<Rightarrow> PageSize \<Rightarrow> LayoutResult" where
  "layout m fs th ps =
     (let j = \<lparr>metrics = m, theme = th, form = fs, psize = ps\<rparr>;
          st = foldl (layout_section j) (start_state j) (sections fs)
      in \<lparr>pages = seal j st, warnings = warns st\<rparr>)"

text \<open>All placements of a result, page by page, each with the number of its page.\<close>

definition placed :: "LayoutResult \<Rightarrow> (nat \<times> FieldPlacement) list" where
  "placed r = concat (map (\<lambda>p. map (\<lambda>fp. (page_no p, fp)) (placements p)) (pages r))"


section \<open>The form engine: the document (DocumentWriter)\<close>

text \<open>Modelled from the spec: the value types of a registered control (section 4.5).\<close>

datatype value_type = VText | VBoolean | VChoice

text \<open>Modelled from the spec: the value a control of each widget kind exports.\<close>

fun value_type_of :: "widget_kind \<Rightarrow> value_type" where
  "value_type_of SingleLineEntry = VText"
| "value_type_of MultiLineEntry = VText"
| "value_type_of BooleanToggle = VBoolean"
| "value_type_of SingleSelectionList = VChoice"

text \<open>
  The value type that table 4.4 gives each field type, read off the table row by row:
  a checkbox exports a boolean, a choice a selection, every other type text.
\<close>

fun table_value_type :: "field_type \<Rightarrow> value_type" where
  "table_value_type TText = VText"
| "table_value_type TEmail = VText"
| "table_value_type TPhone = VText"
| "table_value_type TNumber = VText"
| "table_value_type TDate = VText"
| "table_value_type TMultiline = VText"
| "table_value_type TCheckbox = VBoolean"
| "table_value_type TChoice = VChoice"
| "table_value_type TSignature = VText"

text \<open>Modelled from the spec: a named, typed, positioned control of the registry.\<close>

record Control =
  ctl_name :: string
  ctl_type :: value_type
  ctl_page :: nat
  ctl_box :: Box
  ctl_widget :: Widget

text \<open>
  Modelled from the spec: the document, as its structure rather than its bytes: the
  static drawing of each page, the registry of interactive fields, and the metadata that
  may differ between two runs (the generation timestamp).
\<close>

record Document =
  page_streams :: "DrawPrimitive list list"
  registry :: "Control list"
  created :: nat

text \<open>Modelled from the spec: the control registered for a placement, with the exact box of the layout.\<close>

definition control_of :: "nat \<times> FieldPlacement \<Rightarrow> Control" where
  "control_of p =
     (case p of (n, fp) \<Rightarrow>
        \<lparr>ctl_name = field_id fp, ctl_type = value_type_of (kind (widget fp)),
         ctl_page = n, ctl_box = bbox fp, ctl_widget = widget fp\<rparr>)"

text \<open>Modelled from the spec: \<^verbatim>\<open>DocumentWriter.write\<close>; \<open>stamp\<close> is the clock.\<close>

definition write_document :: "LayoutResult \<Rightarrow> nat \<Rightarrow> Document" where
  "write_document r stamp =
     \<lparr>page_streams = map primitives (pages r),
      registry = map control_of (placed r),
      created = stamp\<rparr>"

section \<open>The form engine: one generation run\<close>

text \<open>Modelled from the spec: the stages of a run after theme construction.\<close>

datatype stage = StValidate | StLayout | StWrite

text \<open>
  Modelled from the spec: a run of the pipeline, validation first. The stages that did
  work are recorded beside the outcome: a document, or the error that stopped the run.
\<close>

record RunResult =
  stages_run :: "stage list"
  outcome :: "ValidationError + Document"

definition generate :: "Metrics \<Rightarrow> string FormSpec \<Rightarrow> BrandTheme \<Rightarrow> nat \<Rightarrow> RunResult" where
  "generate m raw th stamp =
     (case validate raw of
        Inl e \<Rightarrow> \<lparr>stages_run = [StValidate], outcome = Inl e\<rparr>
      | Inr fs \<Rightarrow>
          \<lparr>stages_run = [StValidate, StLayout, StWrite],
           outcome = Inr (write_document (layout m fs th (page_size fs)) stamp)\<rparr>)"

section \<open>The form engine: what a run has placed\<close>

text \<open>
  The placements a layout state holds, sealed pages first, and the invariant of the
  page state machine: the cursor stays in the body, every placement lies in the body of
  its page, and the sealed pages are numbered from 1.
\<close>

definition trace :: "LState \<Rightarrow> FieldPlacement list" where
  "trace st = concat (map placements (sealed st)) @ cur_places st"



















section \<open>Sample inputs\<close>

text \<open>A set of measures, a theme and a one-section form on which the theorems are instantiated.\<close>

abbreviation sample_metrics :: Metrics where
  "sample_metrics \<equiv>
     \<lparr>margin = 36, header_h = 72, footer_h = 24, bar_h = 20, line_h = 24, gutter = 12,
      wrap_lines = (\<lambda>w t. 1 + length t div 80)\<rparr>"

abbreviation sample_theme :: BrandTheme where
  "sample_theme \<equiv>
     \<lparr>primary = (20, 60, 120), secondary = (200, 120, 40), accent = (40, 160, 90),
      text_on_primary = (255, 255, 255), light_tint = (210, 225, 245),
      dark_shade = (10, 30, 60)\<rparr>"

abbreviation sample_field :: "string \<Rightarrow> 't \<Rightarrow> rat option \<Rightarrow> 't Field" where
  "sample_field n t h \<equiv>
     \<lparr>name = n, label = n, required = False, default_value = None, tooltip = [],
      full_width = False, ftype = t, options = [], height = h, placeholder = None\<rparr>"

abbreviation sample_form :: "'t \<Rightarrow> 't \<Rightarrow> 't \<Rightarrow> 't FormSpec" where
  "sample_form t1 t2 t3 \<equiv>
     \<lparr>company_name = ''Acme'', document_title = ''Intake'', document_subtitle = [],
      footer_text = ''Confidential'', page_size = Letter,
      sections = [\<lparr>title = ''Contact'', columns = 2, intro_text = Some ''Tell us who you are.'',
                   field_list = [sample_field ''full_name'' t1 None,
                                 sample_field ''notes'' t2 (Some 30),
                                 sample_field ''agree'' t3 None]\<rparr>]\<rparr>"

section \<open>DropZone: proofs\<close>

lemma slice0_length: "0 \<le> e \<Longrightarrow> int (length (slice0 xs e)) \<le> e"
  by (simp add: slice0_def Let_def)

lemma flags_nth:
  "list_all (\<lambda>(i, bf). isLogo bf = (i = 0)) (enumerate 0 fs) =
     (\<forall>i < length fs. isLogo (fs ! i) = (i = 0))"
  by (auto simp: list_all_length nth_enumerate_eq)

lemma onDrop_inv:
  assumes "dz_inv files"
  shows "dz_inv (onDrop files accepted)"
proof -
  let ?rem = "MAX_FILES - int (length files)"
  let ?sl = "slice0 accepted ?rem"
  from assms have len: "int (length files) \<le> MAX_FILES"
    and fl: "\<forall>i < length files. isLogo (files ! i) = (i = 0)"
    by (simp_all add: dz_inv_def flags_nth)
  from len have "0 \<le> ?rem" by simp
  then have "int (length ?sl) \<le> ?rem" by (rule slice0_length)
  then have l2: "int (length (onDrop files accepted)) \<le> MAX_FILES"
    by (simp add: onDrop_def Let_def)
  have "isLogo (onDrop files accepted ! i) = (i = 0)"
    if "i < length (onDrop files accepted)" for i
  proof (cases "i < length files")
    case True
    then show ?thesis using fl by (simp add: onDrop_def Let_def nth_append)
  next
    case False
    then have "i - length files < length ?sl"
      using that by (simp add: onDrop_def Let_def)
    then show ?thesis using False
      by (auto simp: onDrop_def Let_def nth_append nth_enumerate_eq case_prod_beta)
  qed
  with l2 show ?thesis by (simp add: dz_inv_def flags_nth)
qed

lemma removeFile_length: "length (removeFile files index) \<le> length files"
proof -
  have "length (filter (\<lambda>(i, bf). i \<noteq> index) (enumerate 0 files))
          \<le> length (enumerate 0 files)"
    by (rule length_filter_le)
  then show ?thesis by (simp add: removeFile_def Let_def)
qed

lemma removeFile_inv:
  assumes "dz_inv files"
  shows "dz_inv (removeFile files index)"
proof -
  from assms removeFile_length [of files index]
  have "int (length (removeFile files index)) \<le> MAX_FILES"
    by (simp add: dz_inv_def)
  moreover have "\<forall>i < length (removeFile files index).
      isLogo (removeFile files index ! i) = (i = 0)"
    by (simp add: removeFile_def Let_def nth_enumerate_eq)
  ultimately show ?thesis by (simp add: dz_inv_def flags_nth)
qed

lemma dz_step_inv: "dz_inv files \<Longrightarrow> dz_inv (dz_step files op)"
  by (cases op) (simp_all add: onDrop_inv removeFile_inv)

lemma dz_foldl_inv: "dz_inv files \<Longrightarrow> dz_inv (foldl dz_step files ops)"
  by (induction ops arbitrary: files) (simp_all add: dz_step_inv)

lemma dz_inv_empty: "dz_inv []"
  by (simp add: dz_inv_def MAX_FILES_def enumerate_eq_zip)

text \<open>
  C8. Starting from the empty list, after every sequence of drops and removals the
  brand-file list holds at most 5 files, and a file of the list has \<open>isLogo = true\<close>
  exactly when it stands at index 0 (so a non-empty list has one logo, its first file).
\<close>

theorem dropzone_invariants:
  "length (dz_run ops) \<le> 5 \<and>
   (\<forall>i < length (dz_run ops). isLogo (dz_run ops ! i) = (i = 0))"
proof -
  have "dz_inv (dz_run ops)"
    unfolding dz_run_def by (rule dz_foldl_inv [OF dz_inv_empty])
  then show ?thesis by (simp add: dz_inv_def flags_nth MAX_FILES_def)
qed

theorem dropzone_invariants_witness:
  "length (dz_run [Drop [(1::nat, lit ''u1''), (2, lit ''u2''), (3, lit ''u3''),
                         (4, lit ''u4''), (5, lit ''u5''), (6, lit ''u6'')],
                   Remove 0, Drop [(7, lit ''u7'')]]) = 5 \<and>
   isLogo (dz_run [Drop [(1::nat, lit ''u1''), (2, lit ''u2''), (3, lit ''u3''),
                         (4, lit ''u4''), (5, lit ''u5''), (6, lit ''u6'')],
                   Remove 0, Drop [(7, lit ''u7'')]] ! 0) \<and>
   \<not> isLogo (dz_run [Drop [(1::nat, lit ''u1''), (2, lit ''u2''), (3, lit ''u3''),
                         (4, lit ''u4''), (5, lit ''u5''), (6, lit ''u6'')],
                   Remove 0, Drop [(7, lit ''u7'')]] ! 4)"
proof -
  let ?ops = "[Drop [(1::nat, lit ''u1''), (2, lit ''u2''), (3, lit ''u3''),
                     (4, lit ''u4''), (5, lit ''u5''), (6, lit ''u6'')],
               Remove 0, Drop [(7, lit ''u7'')]]"
  have len: "length (dz_run ?ops) = 5"
    by (simp add: dz_run_def onDrop_def removeFile_def slice0_def MAX_FILES_def
        enumerate_eq_zip upt_rec)
  from dropzone_invariants [of ?ops]
  have all: "\<forall>i < length (dz_run ?ops). isLogo (dz_run ?ops ! i) = (i = 0)" by simp
  from all len have "isLogo (dz_run ?ops ! 0) = (0 = (0::nat))" by simp
  moreover from all len have "isLogo (dz_run ?ops ! 4) = (4 = (0::nat))" by simp
  ultimately show ?thesis using len by simp
qed

section \<open>The template page: proofs\<close>

lemma handleGenerate_done:
  assumes "status (handleGenerate st True io) = C_done"
  shows "\<exists>hdr b. convert_res io = Inr hdr \<and> blob_res io = Inr b \<and>
     handleGenerate st True io =
       st\<lparr>status := C_done, pdfBlob := Some b, errorMessage := None,
          fieldCount := (if truthy_num (parseInt10 (case hdr of None \<Rightarrow> lit ''0'' | Some h \<Rightarrow> h))
                         then Some (parseInt10 (case hdr of None \<Rightarrow> lit ''0'' | Some h \<Rightarrow> h))
                         else None)\<rparr>"
  using assms
  by (auto simp: handleGenerate_def fail_with_def Let_def split: sum.splits if_splits)

lemma to_double_small: "m < 2 ^ 53 \<Longrightarrow> to_double m = Some m"
  by (simp add: to_double_def excess_bits.simps [of m])

lemma excess_bits_quotient:
  "m div 2 ^ excess_bits m < 2 ^ 53 \<and> (2 ^ 53 \<le> m \<longrightarrow> 2 ^ 52 \<le> m div 2 ^ excess_bits m)"
proof (induction m rule: excess_bits.induct)
  case (1 m)
  show ?case
  proof (cases "m < 2 ^ 53")
    case True
    then show ?thesis by (simp add: excess_bits.simps [of m])
  next
    case False
    let ?s = "excess_bits (m div 2)"
    from False have e: "excess_bits m = Suc ?s" by (simp add: excess_bits.simps [of m])
    have d: "m div 2 ^ Suc ?s = (m div 2) div 2 ^ ?s"
      by (simp add: div_mult2_eq)
    from 1 [OF False] have ih: "(m div 2) div 2 ^ ?s < 2 ^ 53"
      "2 ^ 53 \<le> m div 2 \<longrightarrow> 2 ^ 52 \<le> (m div 2) div 2 ^ ?s" by simp_all
    have "2 ^ 52 \<le> (m div 2) div 2 ^ ?s"
    proof (cases "2 ^ 53 \<le> m div 2")
      case True
      with ih(2) show ?thesis by simp
    next
      case False
      then have "?s = 0" by (simp add: excess_bits.simps [of "m div 2"])
      moreover from \<open>\<not> m < 2 ^ 53\<close> have "(2::nat) ^ 52 \<le> m div 2" by simp
      ultimately show ?thesis by simp
    qed
    with ih(1) show ?thesis unfolding e d by simp
  qed
qed

lemma to_double_overflow:
  assumes "2 ^ 1024 \<le> m"
  shows "to_double m = None"
proof -
  let ?s = "excess_bits m"
  let ?q = "m div 2 ^ ?s"
  from assms have big: "(2::nat) ^ 53 \<le> m"
    by (rule order_trans [rotated]) simp
  from excess_bits_quotient [of m] big have q: "?q < 2 ^ 53" "2 ^ 52 \<le> ?q" by simp_all
  have "m < (?q + 1) * 2 ^ ?s"
    using div_less_iff_less_mult [of "2 ^ ?s" m "?q + 1"] by simp
  also have "\<dots> \<le> 2 ^ 53 * 2 ^ ?s" using q(1) by simp
  finally have "(2::nat) ^ 1024 < 2 ^ (53 + ?s)" using assms by (simp add: power_add)
  then have "1024 < 53 + ?s" by (rule power_less_imp_less_exp [rotated]) simp
  then have s: "972 \<le> ?s" by simp
  from s have p: "(2::nat) ^ 972 \<le> 2 ^ ?s" by (rule power_increasing) simp
  have "(2::nat) ^ 1024 = 2 ^ 52 * 2 ^ 972" by simp
  also have "\<dots> \<le> ?q * 2 ^ ?s" by (rule mult_mono [OF q(2) p]) simp_all
  finally have lo: "2 ^ 1024 \<le> ?q * 2 ^ ?s" .
  then have "2 ^ 1024 \<le> (?q + 1) * 2 ^ ?s" by simp
  with lo show ?thesis by (simp add: to_double_def Let_def)
qed

lemma digits_value_pow: "digits_value (lit ''1'' @ replicate n 48) = 10 ^ n"
proof -
  have "foldl (\<lambda>a c. 10 * a + (c - 48)) a (replicate n 48) = a * 10 ^ n" for a :: nat
    by (induction n arbitrary: a) (simp_all add: algebra_simps)
  then show ?thesis by (simp add: digits_value_def lit_def)
qed

lemma parseInt10_digits:
  assumes "z \<noteq> []" "list_all is_digit z"
  shows "parseInt10 z =
     (case to_double (digits_value z) of None \<Rightarrow> PosInf | Some v \<Rightarrow> Num (int v))"
proof -
  from assms obtain c cs where z: "z = c # cs" and c: "is_digit c" by (cases z) auto
  from c have nw: "\<not> is_ws c" "c \<noteq> 45" "c \<noteq> 43" by (auto simp: is_digit_def is_ws_def)
  from assms(2) have tw: "takeWhile is_digit z = z" by (simp add: list_all_iff takeWhile_eq_all_conv)
  from nw have dw: "dropWhile is_ws z = z" by (simp add: z)
  show ?thesis
    unfolding parseInt10_def dw Let_def using nw tw assms(1)
    by (simp add: z split: option.splits)
qed

lemma parseInt10_huge: "parseInt10 (lit ''1'' @ replicate 309 48) = PosInf"
proof -
  have "list_all is_digit (lit ''1'' @ replicate 309 48)"
    by (simp add: lit_def is_digit_def list_all_iff)
  moreover have "lit ''1'' @ replicate 309 48 \<noteq> []" by (simp add: lit_def)
  moreover have "to_double (10 ^ 309) = None" by (rule to_double_overflow) simp
  ultimately show ?thesis by (simp add: parseInt10_digits digits_value_pow)
qed

lemma parseInt10_zero: "parseInt10 (lit ''0'') = Num 0"
  by (simp add: parseInt10_def lit_def is_ws_def is_digit_def digits_value_def to_double_small)

lemma parseInt10_examples:
  "parseInt10 (lit '' 42abc'') = Num 42"
  "parseInt10 (lit ''-3'') = Num (- 3)"
  "parseInt10 (lit ''abc'') = NaN"
  "parseInt10 (lit ''+'') = NaN"
  "parseInt10 [] = NaN"
  "parseInt10 (lit ''0x10'') = Num 0"
  by (simp_all add: parseInt10_def lit_def is_ws_def is_digit_def digits_value_def to_double_small)

lemma parseInt10_rounds: "parseInt10 (lit ''9007199254740993'') = Num 9007199254740992"
  by (simp add: parseInt10_def lit_def is_ws_def is_digit_def digits_value_def
      to_double_def excess_bits.simps Let_def)

text \<open>
  C7, as the code has it. After a successful template conversion (the handler ends in
  status \<^verbatim>\<open>done\<close>) the page prints a count exactly when the \<^verbatim>\<open>X-Field-Count\<close> header
  is present and \<^verbatim>\<open>parseInt\<close> returns a number greater than zero for it, and the count
  is that number. Whenever the count is an integer \<open>n\<close> it is the integer \<open>n > 0\<close> that
  the header parses to, and conversely; a header of digits that is not zero and below
  \<open>2^53\<close> is printed as the integer written. The page prints no count when the header
  is absent, or reads as zero, as a negative number or as \<^verbatim>\<open>NaN\<close>.
\<close>

theorem field_count_shown:
  assumes "status (handleGenerate st True io) = C_done"
    and "convert_res io = Inr hdr"
  shows "shown_count (handleGenerate st True io) =
       (case hdr of
          None \<Rightarrow> None
        | Some h \<Rightarrow> if js_pos (parseInt10 h) then Some (parseInt10 h) else None) \<and>
     (\<forall>n. shown_count (handleGenerate st True io) = Some (Num n) \<longleftrightarrow>
            count_as_claimed hdr = Some n) \<and>
     (\<forall>h. hdr = Some h \<and> h \<noteq> [] \<and> list_all is_digit h \<and>
            0 < digits_value h \<and> digits_value h < 2 ^ 53 \<longrightarrow>
          shown_count (handleGenerate st True io) = Some (Num (int (digits_value h))))"
proof -
  from handleGenerate_done [OF assms(1)] assms(2)
  obtain b where eq: "handleGenerate st True io =
       st\<lparr>status := C_done, pdfBlob := Some b, errorMessage := None,
          fieldCount := (if truthy_num (parseInt10 (case hdr of None \<Rightarrow> lit ''0'' | Some h \<Rightarrow> h))
                         then Some (parseInt10 (case hdr of None \<Rightarrow> lit ''0'' | Some h \<Rightarrow> h))
                         else None)\<rparr>"
    by auto
  have a: "shown_count (handleGenerate st True io) =
       (case hdr of
          None \<Rightarrow> None
        | Some h \<Rightarrow> if js_pos (parseInt10 h) then Some (parseInt10 h) else None)"
    by (auto simp: eq shown_count_def truthy_num_def js_pos_def parseInt10_zero
        split: option.splits jsnum.splits)
  have b: "shown_count (handleGenerate st True io) = Some (Num n) \<longleftrightarrow>
      count_as_claimed hdr = Some n" for n
    unfolding a by (auto simp: count_as_claimed_def js_pos_def split: option.splits jsnum.splits)
  have c: "shown_count (handleGenerate st True io) = Some (Num (int (digits_value h)))"
    if "hdr = Some h \<and> h \<noteq> [] \<and> list_all is_digit h \<and>
        0 < digits_value h \<and> digits_value h < 2 ^ 53" for h
    unfolding a using that by (simp add: parseInt10_digits to_double_small js_pos_def)
  from a b c show ?thesis by blast
qed

theorem field_count_shown_witness:
  "status (handleGenerate \<lparr>status = C_idle, pdfBlob = None, errorMessage = None, fieldCount = Some (Num 3)\<rparr>
      True \<lparr>cfg_res = Inr (), upload_res = Inr (), convert_res = Inr (Some (lit ''12 fields'')),
       blob_res = Inr (0::nat)\<rparr>) = C_done \<and>
   shown_count (handleGenerate \<lparr>status = C_idle, pdfBlob = None, errorMessage = None, fieldCount = Some (Num 3)\<rparr>
      True \<lparr>cfg_res = Inr (), upload_res = Inr (), convert_res = Inr (Some (lit ''12 fields'')),
       blob_res = Inr (0::nat)\<rparr>) = Some (Num 12) \<and>
   count_as_claimed (Some (lit ''12 fields'')) = Some 12"
proof -
  let ?st = "\<lparr>status = C_idle, pdfBlob = None, errorMessage = None, fieldCount = Some (Num 3)\<rparr>"
  let ?io = "\<lparr>cfg_res = Inr (), upload_res = Inr (), convert_res = Inr (Some (lit ''12 fields'')),
       blob_res = Inr (0::nat)\<rparr>"
  have d: "status (handleGenerate ?st True ?io) = C_done"
    by (simp add: handleGenerate_def Let_def)
  have c: "convert_res ?io = Inr (Some (lit ''12 fields''))" by simp
  have p: "parseInt10 (lit ''12 fields'') = Num 12"
    by (simp add: parseInt10_def lit_def is_ws_def is_digit_def digits_value_def to_double_small)
  from field_count_shown [OF d c] p d show ?thesis
    by (simp add: js_pos_def count_as_claimed_def)
qed

text \<open>
  C7 as stated fails for a header of 310 digits, a one and 309 zeros: it parses to no
  integer, \<^verbatim>\<open>parseInt\<close> returning \<^verbatim>\<open>Infinity\<close>, which is truthy and greater than zero,
  and the page prints a count line with it.
\<close>

theorem field_count_infinity_counterexample:
  "status (handleGenerate \<lparr>status = C_idle, pdfBlob = None, errorMessage = None, fieldCount = None\<rparr>
      True \<lparr>cfg_res = Inr (), upload_res = Inr (),
            convert_res = Inr (Some (lit ''1'' @ replicate 309 48)), blob_res = Inr (0::nat)\<rparr>) = C_done \<and>
   shown_count (handleGenerate \<lparr>status = C_idle, pdfBlob = None, errorMessage = None, fieldCount = None\<rparr>
      True \<lparr>cfg_res = Inr (), upload_res = Inr (),
            convert_res = Inr (Some (lit ''1'' @ replicate 309 48)), blob_res = Inr (0::nat)\<rparr>) = Some PosInf \<and>
   count_as_claimed (Some (lit ''1'' @ replicate 309 48)) = None"
  by (simp add: handleGenerate_def Let_def shown_count_def count_as_claimed_def parseInt10_huge
      truthy_num_def js_pos_def)

section \<open>The page size: proofs\<close>

text \<open>
  C6. The page size of a generation request is one of two presets: whatever is picked
  in the select of the scratch page, the state \<^verbatim>\<open>pageSize\<close> sent as \<^verbatim>\<open>page_size\<close> is
  \<^verbatim>\<open>a4\<close> or \<^verbatim>\<open>letter\<close>, both can be reached, the type of the request field has
  these two values and no other, and the select offers exactly them, labelled
  A4 (210 x 297 mm) and US Letter (8.5 x 11 in).
\<close>

theorem page_size_two_presets:
  "pageSize_after picks \<in> {lit ''a4'', lit ''letter''} \<and>
   as_page_size (pageSize_after picks) \<in> {Some A4, Some Letter} \<and>
   pageSize_after [] = page_size_tag Letter \<and>
   pageSize_after [0] = page_size_tag A4 \<and>
   (\<forall>p. p = A4 \<or> p = Letter) \<and>
   page_size_options =
     [(page_size_tag A4, lit ''A4 (210 '' @ [215] @ lit '' 297 mm)''),
      (page_size_tag Letter, lit ''US Letter (8.5 '' @ [215] @ lit '' 11 in)'')]"
proof -
  have step: "cur \<in> {lit ''a4'', lit ''letter''} \<Longrightarrow>
      onChange_pageSize cur i \<in> {lit ''a4'', lit ''letter''}" for cur i
    by (auto simp: onChange_pageSize_def page_size_options_def nth_Cons split: nat.splits)
  have fold: "cur \<in> {lit ''a4'', lit ''letter''} \<Longrightarrow>
      foldl onChange_pageSize cur picks \<in> {lit ''a4'', lit ''letter''}" for cur
  proof (induction picks arbitrary: cur)
    case Nil then show ?case by simp
  next
    case (Cons i picks)
    from Cons.IH [OF step [OF Cons.prems]] show ?case by simp
  qed
  have a: "pageSize_after picks \<in> {lit ''a4'', lit ''letter''}"
    unfolding pageSize_after_def by (rule fold) simp
  then have b: "as_page_size (pageSize_after picks) \<in> {Some A4, Some Letter}"
    by (auto simp: as_page_size_def)
  have c: "\<forall>p. p = A4 \<or> p = Letter"
    using PageSize.exhaust by blast
  show ?thesis using a b c
    by (simp add: pageSize_after_def onChange_pageSize_def page_size_options_def)
qed

section \<open>get-upload-url: proofs\<close>

lemma ext_of_alnum: "list_all is_alnum (ext_of p)"
  by (simp add: ext_of_def strip_non_alnum_def list_all_iff)

lemma upload_GET_sign:
  "sign_request (upload_GET e p now r fetch) = Some u \<Longrightarrow>
     u = sign_endpoint (supabase_url_of e) (upload_path now r p)"
  by (auto simp: upload_GET_def Let_def split: fetch_result.splits option.splits if_splits)

lemma upload_GET_ok:
  "reply (upload_GET e p now r fetch) = Some rsp \<Longrightarrow> code rsp = 200 \<Longrightarrow>
     \<exists>tok. body rsp = ok_body (supabase_url_of e) (upload_path now r p) tok"
  by (auto simp: upload_GET_def Let_def split: fetch_result.splits option.splits if_splits)

lemma upload_GET2_sign:
  "sign_request (upload_GET2 e p now r fetch) = Some u \<Longrightarrow>
     u = sign_endpoint (supabase_url_of e) (upload_path now r p)"
  by (auto simp: upload_GET2_def Let_def split: fetch_result.splits option.splits if_splits)

lemma upload_GET2_ok:
  "reply (upload_GET2 e p now r fetch) = Some rsp \<Longrightarrow> code rsp = 200 \<Longrightarrow>
     \<exists>tok. body rsp = ok_body (supabase_url_of e) (upload_path now r p) tok"
  by (auto simp: upload_GET2_def Let_def split: fetch_result.splits option.splits if_splits)

text \<open>
  C9, as the code has it. The object path is \<^verbatim>\<open>templates/\<close>, the timestamp, a dash,
  the random string, a dot and the extension; the extension is the \<^verbatim>\<open>ext\<close> parameter
  (\<^verbatim>\<open>bin\<close> when the parameter is absent or empty) with every character other than ASCII
  letters and digits removed. The path starts with \<^verbatim>\<open>templates/\<close>, and this same path is
  the one in the sign endpoint the route posts to and in the \<^verbatim>\<open>uploadUrl\<close>,
  \<^verbatim>\<open>publicUrl\<close> and \<^verbatim>\<open>deletePath\<close> of a 200 response, in both copies of the route.
\<close>

theorem upload_path_shape:
  "upload_path now r p =
     lit ''templates/'' @ dec now @ lit ''-'' @ drop 2 r @ lit ''.'' @
       filter is_alnum (case p of None \<Rightarrow> lit ''bin'' | Some v \<Rightarrow> if v = [] then lit ''bin'' else v) \<and>
   take 10 (upload_path now r p) = lit ''templates/'' \<and>
   (\<forall>c \<in> set (ext_of p). is_alnum c) \<and>
   (\<forall>u. sign_request (upload_GET e p now r fetch) = Some u \<longrightarrow>
        u = sign_endpoint (supabase_url_of e) (upload_path now r p)) \<and>
   (\<forall>rsp. reply (upload_GET e p now r fetch) = Some rsp \<and> code rsp = 200 \<longrightarrow>
        (\<exists>tok. body rsp = ok_body (supabase_url_of e) (upload_path now r p) tok)) \<and>
   (\<forall>u. sign_request (upload_GET2 e p now r fetch) = Some u \<longrightarrow>
        u = sign_endpoint (supabase_url_of e) (upload_path now r p)) \<and>
   (\<forall>rsp. reply (upload_GET2 e p now r fetch) = Some rsp \<and> code rsp = 200 \<longrightarrow>
        (\<exists>tok. body rsp = ok_body (supabase_url_of e) (upload_path now r p) tok))"
proof -
  have a: "upload_path now r p =
     lit ''templates/'' @ dec now @ lit ''-'' @ drop 2 r @ lit ''.'' @
       filter is_alnum (case p of None \<Rightarrow> lit ''bin'' | Some v \<Rightarrow> if v = [] then lit ''bin'' else v)"
    by (simp add: upload_path_def ext_of_def strip_non_alnum_def or_else_def split: option.splits)
  have b: "take 10 (upload_path now r p) = lit ''templates/''"
    by (simp add: upload_path_def lit_def)
  have c: "\<forall>c \<in> set (ext_of p). is_alnum c"
    using ext_of_alnum [of p] by (simp add: list_all_iff)
  have d: "\<forall>u. sign_request (upload_GET e p now r fetch) = Some u \<longrightarrow>
        u = sign_endpoint (supabase_url_of e) (upload_path now r p)"
    using upload_GET_sign by blast
  have e: "\<forall>rsp. reply (upload_GET e p now r fetch) = Some rsp \<and> code rsp = 200 \<longrightarrow>
        (\<exists>tok. body rsp = ok_body (supabase_url_of e) (upload_path now r p) tok)"
    using upload_GET_ok by blast
  have f: "\<forall>u. sign_request (upload_GET2 e p now r fetch) = Some u \<longrightarrow>
        u = sign_endpoint (supabase_url_of e) (upload_path now r p)"
    using upload_GET2_sign by blast
  have g: "\<forall>rsp. reply (upload_GET2 e p now r fetch) = Some rsp \<and> code rsp = 200 \<longrightarrow>
        (\<exists>tok. body rsp = ok_body (supabase_url_of e) (upload_path now r p) tok)"
    using upload_GET2_ok by blast
  show ?thesis by (intro conjI a b c d e f g)
qed

theorem upload_path_shape_witness:
  "sign_request (upload_GET
      [(lit ''SUPABASE_URL'', lit ''https://x.supabase.co''), (lit ''SUPABASE_SERVICE_ROLE_KEY'', lit ''srk'')]
      (Some (lit ''../p.d/f'')) 1700000000000 (lit ''0.k3x9'')
      (\<lambda>u. Responded \<lparr>res_ok = True, res_status = 200, res_text = [],
          res_json = Some \<lparr>token = Some (lit ''tk''), signedToken = None, signed_url = None\<rparr>\<rparr>))
     = Some (sign_endpoint (lit ''https://x.supabase.co'') (lit ''templates/1700000000000-k3x9.pdf'')) \<and>
   reply (upload_GET
      [(lit ''SUPABASE_URL'', lit ''https://x.supabase.co''), (lit ''SUPABASE_SERVICE_ROLE_KEY'', lit ''srk'')]
      (Some (lit ''../p.d/f'')) 1700000000000 (lit ''0.k3x9'')
      (\<lambda>u. Responded \<lparr>res_ok = True, res_status = 200, res_text = [],
          res_json = Some \<lparr>token = Some (lit ''tk''), signedToken = None, signed_url = None\<rparr>\<rparr>))
     = Some \<lparr>code = 200, body = ok_body (lit ''https://x.supabase.co'')
          (lit ''templates/1700000000000-k3x9.pdf'') (lit ''tk'')\<rparr>"
proof -
  let ?e = "[(lit ''SUPABASE_URL'', lit ''https://x.supabase.co''),
             (lit ''SUPABASE_SERVICE_ROLE_KEY'', lit ''srk'')]"
  let ?p = "Some (lit ''../p.d/f'')"
  let ?f = "\<lambda>u::jsstring. Responded \<lparr>res_ok = True, res_status = 200, res_text = [],
          res_json = Some \<lparr>token = Some (lit ''tk''), signedToken = None, signed_url = None\<rparr>\<rparr>"
  let ?o = "upload_GET ?e ?p 1700000000000 (lit ''0.k3x9'') ?f"
  have url: "supabase_url_of ?e = lit ''https://x.supabase.co''"
    by (simp add: supabase_url_of_def or_else_def lit_def)
  have key: "service_role_key_of ?e = lit ''srk''"
    by (simp add: service_role_key_of_def or_else_def lit_def)
  have path: "upload_path 1700000000000 (lit ''0.k3x9'') ?p = lit ''templates/1700000000000-k3x9.pdf''"
    by (simp add: upload_path_def ext_of_def or_else_def strip_non_alnum_def is_alnum_def
        lit_def dec.simps)
  have nz: "lit ''https://x.supabase.co'' \<noteq> []" "lit ''srk'' \<noteq> []" "lit ''tk'' \<noteq> []"
    by (simp_all add: lit_def)
  have sr: "sign_request ?o = Some (sign_endpoint (supabase_url_of ?e)
      (upload_path 1700000000000 (lit ''0.k3x9'') ?p))"
    by (simp add: upload_GET_def Let_def url key nz nullish_def)
  have rp: "reply ?o = Some \<lparr>code = 200, body = ok_body (supabase_url_of ?e)
      (upload_path 1700000000000 (lit ''0.k3x9'') ?p) (lit ''tk'')\<rparr>"
    by (simp add: upload_GET_def Let_def url key nz nullish_def)
  from upload_path_shape [of 1700000000000 "lit ''0.k3x9''" ?p ?e ?f]
  have "\<forall>u. sign_request ?o = Some u \<longrightarrow>
        u = sign_endpoint (supabase_url_of ?e) (upload_path 1700000000000 (lit ''0.k3x9'') ?p)"
    by blast
  with sr rp show ?thesis by (simp add: url path)
qed

text \<open>
  C9 as stated fails for a parameter that is present and empty (\<^verbatim>\<open>?ext=\<close>): the
  claim gives the empty extension, the route gives \<^verbatim>\<open>bin\<close>.
\<close>

theorem ext_default_counterexample:
  "ext_of (Some []) = lit ''bin'' \<and> ext_as_claimed (Some []) = [] \<and>
   upload_path 1700000000000 (lit ''0.k3x9'') (Some []) = lit ''templates/1700000000000-k3x9.bin''"
  by (simp add: ext_of_def ext_as_claimed_def or_else_def strip_non_alnum_def is_alnum_def
      upload_path_def lit_def dec.simps)

section \<open>debug-env: proofs\<close>

lemma names_previews_keys:
  "fst ` set (names_previews e) = set (filter has_supabase (map fst e))"
  by (force simp: names_previews_def image_iff)

lemma sort_cong_set:
  fixes xs ys :: "jsstring list"
  assumes "distinct xs" "distinct ys" "set xs = set ys"
  shows "sort xs = sort ys"
  using assms by (intro sorted_distinct_set_unique) simp_all

lemma debug_keys_cong:
  assumes "distinct (map fst e1)" "distinct (map fst e2)"
    and "set (names_previews e1) = set (names_previews e2)"
  shows "debug_keys e1 = debug_keys e2"
proof -
  have "set (filter has_supabase (map fst e1)) = set (filter has_supabase (map fst e2))"
    using assms(3) names_previews_keys [of e1] names_previews_keys [of e2] by simp
  with assms(1,2) show ?thesis
    unfolding debug_keys_def by (intro sort_cong_set) (simp_all add: distinct_filter)
qed

lemma lookup_in_previews:
  assumes "distinct (map fst e)" "k \<in> set (debug_keys e)"
  shows "\<exists>v. map_of e k = Some v \<and> (k, take 12 v, 12 < length v) \<in> set (names_previews e)"
proof -
  from assms(2) have hk: "has_supabase k" and "k \<in> fst ` set e"
    by (auto simp: debug_keys_def)
  then obtain v where kv: "(k, v) \<in> set e" by auto
  with assms(1) have "map_of e k = Some v" by simp
  moreover from kv hk have "(k, take 12 v, 12 < length v) \<in> set (names_previews e)"
    by (force simp: names_previews_def image_iff)
  ultimately show ?thesis by blast
qed

lemma previews_lookup:
  assumes "distinct (map fst e)" "(k, t, b) \<in> set (names_previews e)"
  shows "\<exists>v. map_of e k = Some v \<and> t = take 12 v \<and> b = (12 < length v)"
proof -
  from assms(2) obtain v where "(k, v) \<in> set e" "t = take 12 v" "b = (12 < length v)"
    by (auto simp: names_previews_def)
  with assms(1) show ?thesis by auto
qed

lemma debug_preview_cong:
  assumes d1: "distinct (map fst e1)" and d2: "distinct (map fst e2)"
    and eq: "set (names_previews e1) = set (names_previews e2)"
  shows "debug_preview e1 = debug_preview e2"
proof -
  have keys: "debug_keys e1 = debug_keys e2" by (rule debug_keys_cong [OF d1 d2 eq])
  have "preview_of (case map_of e1 k of None \<Rightarrow> [] | Some v \<Rightarrow> v) =
        preview_of (case map_of e2 k of None \<Rightarrow> [] | Some v \<Rightarrow> v)"
    if "k \<in> set (debug_keys e1)" for k
  proof -
    from lookup_in_previews [OF d1 that] obtain v
      where v: "map_of e1 k = Some v"
        and "(k, take 12 v, 12 < length v) \<in> set (names_previews e1)" by blast
    with eq have "(k, take 12 v, 12 < length v) \<in> set (names_previews e2)" by simp
    from previews_lookup [OF d2 this] obtain w
      where w: "map_of e2 k = Some w" "take 12 v = take 12 w" "(12 < length v) = (12 < length w)"
      by blast
    then show ?thesis using v by (simp add: preview_of_def)
  qed
  then have "map (\<lambda>k. (k, preview_of (case map_of e1 k of None \<Rightarrow> [] | Some v \<Rightarrow> v))) (debug_keys e1) =
      map (\<lambda>k. (k, preview_of (case map_of e2 k of None \<Rightarrow> [] | Some v \<Rightarrow> v))) (debug_keys e1)"
    by (intro map_cong) simp_all
  then show ?thesis unfolding debug_preview_def keys .
qed

text \<open>
  C10, as the code has it. Two environments with the same names containing
  \<^verbatim>\<open>supabase\<close>, the same first 12 characters of their values, and the same answer to
  whether each value is longer than 12 characters, get the same response. The keys of the
  response are the names of the environment that contain \<^verbatim>\<open>supabase\<close>, and the preview
  has an entry for these keys and no other.
\<close>

theorem debug_env_depends_on:
  "(distinct (map fst e1) \<and> distinct (map fst e2) \<and>
      set (names_previews e1) = set (names_previews e2) \<longrightarrow> debug_GET e1 = debug_GET e2) \<and>
   set (debug_keys e) = {k \<in> fst ` set e. has_supabase k} \<and>
   map fst (debug_preview e) = debug_keys e"
proof -
  have a: "distinct (map fst e1) \<and> distinct (map fst e2) \<and>
      set (names_previews e1) = set (names_previews e2) \<longrightarrow> debug_GET e1 = debug_GET e2"
  proof (intro impI, elim conjE)
    assume d: "distinct (map fst e1)" "distinct (map fst e2)"
      and eq: "set (names_previews e1) = set (names_previews e2)"
    have "debug_keys e1 = debug_keys e2" by (rule debug_keys_cong [OF d eq])
    moreover have "debug_preview e1 = debug_preview e2" by (rule debug_preview_cong [OF d eq])
    ultimately show "debug_GET e1 = debug_GET e2" by (simp add: debug_GET_def)
  qed
  have b: "set (debug_keys e) = {k \<in> fst ` set e. has_supabase k}"
    by (auto simp: debug_keys_def)
  have c: "map fst (debug_preview e) = debug_keys e"
    by (simp add: debug_preview_def comp_def)
  show ?thesis by (intro conjI a b c)
qed


theorem debug_env_depends_on_witness:
  "debug_GET [(lit ''SUPABASE_URL'', lit ''https://abcdefgh.supabase.co''), (lit ''PATH'', lit ''/bin'')] =
   debug_GET [(lit ''HOME'', lit ''/root''), (lit ''SUPABASE_URL'', lit ''https://abcdXYZ'')] \<and>
   debug_keys [(lit ''HOME'', lit ''/root''), (lit ''SUPABASE_URL'', lit ''https://abcdXYZ'')] =
     [lit ''SUPABASE_URL'']"
proof -
  let ?e1 = "[(lit ''SUPABASE_URL'', lit ''https://abcdefgh.supabase.co''), (lit ''PATH'', lit ''/bin'')]"
  let ?e2 = "[(lit ''HOME'', lit ''/root''), (lit ''SUPABASE_URL'', lit ''https://abcdXYZ'')]"
  have h: "has_supabase (lit ''SUPABASE_URL'')" "\<not> has_supabase (lit ''PATH'')"
    "\<not> has_supabase (lit ''HOME'')"
    by (simp_all add: has_supabase_def toLowerCase_def lit_def)
  have d: "distinct (map fst ?e1)" "distinct (map fst ?e2)"
    by (simp_all add: lit_def)
  have s: "set (names_previews ?e1) = set (names_previews ?e2)"
    by (simp add: names_previews_def h) (simp add: lit_def)
  have k: "debug_keys ?e2 = [lit ''SUPABASE_URL'']"
    by (simp add: debug_keys_def h)
  from debug_env_depends_on [of ?e1 ?e2] d s have "debug_GET ?e1 = debug_GET ?e2" by blast
  with k show ?thesis by simp
qed

text \<open>
  C10 as stated fails: two environments with the one variable \<^verbatim>\<open>SUPABASE_URL\<close>, whose
  values of 12 and 13 characters share their first 12, get different responses (the
  second preview ends with the ellipsis).
\<close>

theorem debug_env_length_counterexample:
  "distinct (map fst [(lit ''SUPABASE_URL'', lit ''abcdefghijkl'')]) \<and>
   distinct (map fst [(lit ''SUPABASE_URL'', lit ''abcdefghijklm'')]) \<and>
   set (names_prefixes [(lit ''SUPABASE_URL'', lit ''abcdefghijkl'')]) =
     set (names_prefixes [(lit ''SUPABASE_URL'', lit ''abcdefghijklm'')]) \<and>
   debug_GET [(lit ''SUPABASE_URL'', lit ''abcdefghijkl'')] \<noteq>
     debug_GET [(lit ''SUPABASE_URL'', lit ''abcdefghijklm'')]"
  by (simp add: names_prefixes_def debug_GET_def debug_preview_def debug_keys_def
      has_supabase_def toLowerCase_def preview_of_def lit_def)

section \<open>The form engine: proofs about validation\<close>

lemma validate_field_Inr:
  assumes "validate_field f = Inr g"
  shows "name g = name f" and "parse_field_type (ftype f) = Some (ftype g)"
    and "valid_field g" and "options g = options f" and "height g = height f"
    and "full_width g = full_width f"
  using assms
  by (auto simp: validate_field_def valid_field_def split: option.splits if_splits)

lemma validate_fields_Inr:
  "validate_fields fs = Inr gs \<Longrightarrow> list_all2 (\<lambda>f g. validate_field f = Inr g) fs gs"
  by (induction fs arbitrary: gs) (auto split: sum.splits)

lemma validate_section_Inr:
  assumes "validate_section s = Inr t"
  shows "list_all2 (\<lambda>f g. validate_field f = Inr g) (field_list s) (field_list t)"
    and "columns t = 1 \<or> columns t = 2"
  using assms
  by (auto simp: validate_section_def split: if_splits sum.splits dest: validate_fields_Inr)

lemma validate_sections_Inr:
  "validate_sections ss = Inr ts \<Longrightarrow> list_all2 (\<lambda>s t. validate_section s = Inr t) ss ts"
  by (induction ss arbitrary: ts) (auto split: sum.splits)

lemma concat_fields_all2:
  "list_all2 (\<lambda>s t. validate_section s = Inr t) ss ts \<Longrightarrow>
   list_all2 (\<lambda>f g. validate_field f = Inr g)
     (concat (map field_list ss)) (concat (map field_list ts))"
proof (induction rule: list_all2_induct)
  case Nil
  then show ?case by simp
next
  case (Cons s ss t ts)
  from validate_section_Inr(1) [OF Cons.hyps(1)] Cons.IH show ?case
    by (simp add: list_all2_appendI)
qed

lemma sections_columns:
  "list_all2 (\<lambda>s t. validate_section s = Inr t) ss ts \<Longrightarrow>
   list_all (\<lambda>s. columns s = 1 \<or> columns s = 2) ts"
proof (induction rule: list_all2_induct)
  case Nil
  then show ?case by simp
next
  case (Cons s ss t ts)
  from validate_section_Inr(2) [OF Cons.hyps(1)] Cons.IH show ?case by simp
qed

lemma first_duplicate_None: "first_duplicate xs = None \<longleftrightarrow> distinct xs"
  by (induction xs) auto

lemma validate_Inr_fields:
  assumes "validate raw = Inr fs"
  shows "list_all2 (\<lambda>f g. validate_field f = Inr g) (all_fields raw) (all_fields fs)"
    and "distinct (map name (all_fields fs))"
    and "sections fs \<noteq> []"
    and "list_all (\<lambda>s. columns s = 1 \<or> columns s = 2) (sections fs)"
    and "page_size fs = page_size raw"
proof -
  from assms obtain ss where ss: "validate_sections (sections raw) = Inr ss"
    and nd: "first_duplicate (map name (concat (map field_list ss))) = None"
    and fs: "sections fs = ss" and ne: "sections raw \<noteq> []"
    and ps: "page_size fs = page_size raw"
    by (auto simp: validate_def split: if_splits sum.splits option.splits)
  have a2: "list_all2 (\<lambda>s t. validate_section s = Inr t) (sections raw) ss"
    by (rule validate_sections_Inr [OF ss])
  from concat_fields_all2 [OF a2] fs
  show "list_all2 (\<lambda>f g. validate_field f = Inr g) (all_fields raw) (all_fields fs)"
    by (simp add: all_fields_def)
  from nd fs show "distinct (map name (all_fields fs))"
    by (simp add: first_duplicate_None all_fields_def)
  from a2 ne fs show "sections fs \<noteq> []" by (auto simp: list_all2_Nil2)
  from a2 fs show "list_all (\<lambda>s. columns s = 1 \<or> columns s = 2) (sections fs)"
    using sections_columns by blast
  from ps show "page_size fs = page_size raw" .
qed

lemma all2_names:
  "list_all2 (\<lambda>f g. validate_field f = Inr g) fs gs \<Longrightarrow> map name gs = map name fs"
  by (induction rule: list_all2_induct) (auto dest: validate_field_Inr(1))

lemma all2_valid:
  "list_all2 (\<lambda>f g. validate_field f = Inr g) fs gs \<Longrightarrow> list_all valid_field gs"
  by (induction rule: list_all2_induct) (auto dest: validate_field_Inr(3))

lemma all2_known:
  "list_all2 (\<lambda>f g. validate_field f = Inr g) fs gs \<Longrightarrow> f \<in> set fs \<Longrightarrow>
     parse_field_type (ftype f) \<noteq> None \<and> \<not> (ftype f = ''choice'' \<and> options f = [])"
proof (induction rule: list_all2_induct)
  case Nil
  then show ?case by simp
next
  case (Cons x xs y ys)
  have "parse_field_type (ftype x) \<noteq> None \<and> \<not> (ftype x = ''choice'' \<and> options x = [])"
    using Cons.hyps(1)
    by (auto simp: validate_field_def parse_field_type_def split: option.splits if_splits)
  with Cons show ?case by auto
qed

lemma validate_valid: "validate raw = Inr fs \<Longrightarrow> valid_spec fs"
  using validate_Inr_fields [of raw fs]
  by (simp add: valid_spec_def all2_valid)

lemma validate_not_malformed:
  assumes "validate raw = Inr fs"
  shows "\<not> malformed raw"
proof -
  note v = validate_Inr_fields [OF assms]
  from all2_names [OF v(1)] v(2) have "distinct (map name (all_fields raw))" by simp
  moreover have "\<not> list_ex (\<lambda>f. parse_field_type (ftype f) = None) (all_fields raw)"
    using all2_known [OF v(1)] by (auto simp: list_ex_iff)
  moreover have "\<not> list_ex (\<lambda>f. ftype f = ''choice'' \<and> options f = []) (all_fields raw)"
    using all2_known [OF v(1)] by (auto simp: list_ex_iff)
  ultimately show ?thesis by (simp add: malformed_def)
qed

text \<open>
  C4. A malformed specification (an unknown field type, a duplicate field name, or a
  choice field without options) ends the run with a validation error: validation is the
  only stage that has worked, neither layout nor writing has started, and the outcome
  holds no document. An unknown field type is therefore met by validation; the widget
  mapper is total on the closed set of types and has no error to raise.
\<close>

theorem malformed_rejected_before_layout:
  assumes "malformed raw"
  shows "\<exists>e. validate raw = Inl e \<and>
     generate m raw th stamp = \<lparr>stages_run = [StValidate], outcome = Inl e\<rparr>"
proof (cases "validate raw")
  case (Inl e)
  then show ?thesis by (simp add: generate_def)
next
  case (Inr fs)
  with validate_not_malformed assms show ?thesis by blast
qed

theorem malformed_rejected_before_layout_witness:
  "malformed (sample_form ''text'' ''slider'' ''checkbox'') \<and>
   generate sample_metrics (sample_form ''text'' ''slider'' ''checkbox'') sample_theme 0 =
     \<lparr>stages_run = [StValidate], outcome = Inl (UnknownFieldType ''notes'' ''slider'')\<rparr>"
proof -
  have mal: "malformed (sample_form ''text'' ''slider'' ''checkbox'')"
    by (simp add: malformed_def all_fields_def parse_field_type_def)
  have v: "validate (sample_form ''text'' ''slider'' ''checkbox'') =
      Inl (UnknownFieldType ''notes'' ''slider'')"
    by (simp add: validate_def validate_section_def validate_field_def parse_field_type_def)
  from malformed_rejected_before_layout [OF mal, of sample_metrics sample_theme 0] v mal
  show ?thesis by auto
qed

section \<open>The form engine: proofs about layout and the registry\<close>

lemma trace_seal: "concat (map placements (seal j st)) = trace st"
  by (simp add: seal_def trace_def)

lemma trace_flush: "trace (flush j st) = trace st"
  by (simp add: flush_def trace_def seal_def)

lemma trace_draw_bar: "trace (draw_bar j st t) = trace st"
  using trace_flush [of j st]
  by (simp add: draw_bar_def Let_def trace_def)

lemma trace_draw_intro: "trace (draw_intro j st t) = trace st"
  using trace_flush [of j st]
  by (simp add: draw_intro_def Let_def trace_def)

lemma map_enumerate_snd: "map (\<lambda>p. g (snd p)) (enumerate n xs) = map g xs"
  by (induction xs arbitrary: n) simp_all

lemma trace_place_row:
  "trace (place_row j cols st row) =
     trace st @
     map (place_field j cols
            (y_cursor (if remaining j st < row_h (metrics j) row then flush j st else st))
            (remaining j (if remaining j st < row_h (metrics j) row then flush j st else st)))
       (enumerate 0 row)"
proof -
  let ?st1 = "if remaining j st < row_h (metrics j) row then flush j st else st"
  have t1: "trace ?st1 = trace st" by (simp add: trace_flush)
  have "trace (place_row j cols st row) =
      trace ?st1 @ map (place_field j cols (y_cursor ?st1) (remaining j ?st1)) (enumerate 0 row)"
    unfolding place_row_def Let_def trace_def by simp
  with t1 show ?thesis by simp
qed

lemma trace_place_row_keys:
  "map (\<lambda>fp. (field_id fp, widget fp)) (trace (place_row j cols st row)) =
   map (\<lambda>fp. (field_id fp, widget fp)) (trace st) @ map (\<lambda>f. (name f, map_widget f)) row"
proof -
  have e: "map ((\<lambda>fp. (field_id fp, widget fp)) \<circ> place_field j cols y a) (enumerate 0 row) =
      map (\<lambda>f. (name f, map_widget f)) row" for y a
    using map_enumerate_snd [of "\<lambda>f. (name f, map_widget f)" 0 row]
    by (simp add: comp_def place_field_def case_prod_beta)
  show ?thesis
    unfolding trace_place_row by (simp add: e)
qed

lemma concat_rows2: "concat (rows2 fs) = fs"
  by (induction fs rule: rows2.induct) simp_all

lemma concat_rows_of: "concat (rows_of cols fs) = fs"
  by (simp add: rows_of_def concat_rows2)

lemma trace_rows_keys:
  "map (\<lambda>fp. (field_id fp, widget fp)) (trace (foldl (place_row j cols) st rows)) =
   map (\<lambda>fp. (field_id fp, widget fp)) (trace st) @
     map (\<lambda>f. (name f, map_widget f)) (concat rows)"
  by (induction rows arbitrary: st) (simp_all add: trace_place_row_keys)

lemma trace_section_keys:
  "map (\<lambda>fp. (field_id fp, widget fp)) (trace (layout_section j st s)) =
   map (\<lambda>fp. (field_id fp, widget fp)) (trace st) @
     map (\<lambda>f. (name f, map_widget f)) (field_list s)"
  by (simp add: layout_section_def Let_def trace_rows_keys concat_rows_of
      trace_draw_bar trace_draw_intro split: option.splits)

lemma trace_sections_keys:
  "map (\<lambda>fp. (field_id fp, widget fp)) (trace (foldl (layout_section j) st ss)) =
   map (\<lambda>fp. (field_id fp, widget fp)) (trace st) @
     map (\<lambda>f. (name f, map_widget f)) (concat (map field_list ss))"
  by (induction ss arbitrary: st) (simp_all add: trace_section_keys)

lemma snd_placed: "map snd (placed r) = concat (map placements (pages r))"
  by (simp add: placed_def map_concat comp_def)

lemma layout_keys:
  "map (\<lambda>p. (field_id (snd p), widget (snd p))) (placed (layout m fs th ps)) =
   map (\<lambda>f. (name f, map_widget f)) (all_fields fs)"
proof -
  let ?j = "\<lparr>metrics = m, theme = th, form = fs, psize = ps\<rparr>"
  let ?st = "foldl (layout_section ?j) (start_state ?j) (sections fs)"
  have "map (\<lambda>p. (field_id (snd p), widget (snd p))) (placed (layout m fs th ps)) =
      map (\<lambda>fp. (field_id fp, widget fp)) (map snd (placed (layout m fs th ps)))"
    by (simp add: comp_def)
  also have "\<dots> = map (\<lambda>fp. (field_id fp, widget fp)) (trace ?st)"
    by (simp add: snd_placed layout_def Let_def trace_seal)
  also have "\<dots> = map (\<lambda>f. (name f, map_widget f)) (all_fields fs)"
    by (simp add: trace_sections_keys all_fields_def) (simp add: trace_def start_state_def)
  finally show ?thesis .
qed

lemma table_matches: "value_type_of (widget_kind_of t) = table_value_type t"
  by (cases t) simp_all






















text \<open>
  C1. For a valid FormSpec the registry of the written document lists the fields of the
  FormSpec in their order, each under its name with the value type that table 4.4 gives
  its field type; the names of the registry are distinct and are exactly the field names,
  so each field name is registered once, none twice and none missing.
\<close>

theorem registry_complete:
  assumes "valid_spec fs"
  shows "map (\<lambda>c. (ctl_name c, ctl_type c)) (registry (write_document (layout m fs th ps) stamp)) =
           map (\<lambda>f. (name f, table_value_type (ftype f))) (all_fields fs) \<and>
         distinct (map ctl_name (registry (write_document (layout m fs th ps) stamp))) \<and>
         set (map ctl_name (registry (write_document (layout m fs th ps) stamp))) =
           set (map name (all_fields fs))"
proof -
  let ?r = "layout m fs th ps"
  have "map (\<lambda>c. (ctl_name c, ctl_type c)) (registry (write_document ?r stamp)) =
      map (\<lambda>k. (fst k, value_type_of (kind (snd k))))
        (map (\<lambda>p. (field_id (snd p), widget (snd p))) (placed ?r))"
    by (simp add: write_document_def control_of_def comp_def case_prod_beta)
  also have "\<dots> = map (\<lambda>f. (name f, table_value_type (ftype f))) (all_fields fs)"
    by (simp add: layout_keys comp_def map_widget_def table_matches)
  finally have a: "map (\<lambda>c. (ctl_name c, ctl_type c)) (registry (write_document ?r stamp)) =
      map (\<lambda>f. (name f, table_value_type (ftype f))) (all_fields fs)" .
  from arg_cong [OF a, of "map fst"]
  have n: "map ctl_name (registry (write_document ?r stamp)) = map name (all_fields fs)"
    by (simp add: comp_def)
  from assms have "distinct (map name (all_fields fs))" by (simp add: valid_spec_def)
  with a n show ?thesis by simp
qed

theorem registry_complete_witness:
  "valid_spec (sample_form TText TMultiline TCheckbox) \<and>
   map (\<lambda>c. (ctl_name c, ctl_type c))
     (registry (write_document
        (layout sample_metrics (sample_form TText TMultiline TCheckbox) sample_theme Letter) 0)) =
     [(''full_name'', VText), (''notes'', VText), (''agree'', VBoolean)]"
proof -
  have val: "valid_spec (sample_form TText TMultiline TCheckbox)"
    by (simp add: valid_spec_def all_fields_def valid_field_def)
  from registry_complete [OF val, of sample_metrics sample_theme Letter 0] val
  show ?thesis by (simp add: all_fields_def)
qed












































end
